theory Spec2Isabelle
  imports Main "HOL-Library.Word" "HOL-Library.Char_ord" "HOL-Library.List_Lexorder"
    "HOL-Library.AList"
begin

section \<open>Kubernetes objects used by the node-group code\<close>

text \<open>
  Go strings and byte slices are byte sequences: both are \<open>string\<close> here. A Go map is an
  association list read with \<open>map_of\<close>; a pointer to an \<open>int32\<close> is an option. A slice
  compared with \<open>reflect.DeepEqual\<close> keeps the difference between \<open>nil\<close> and an empty
  slice, so \<open>Args\<close> and \<open>Ports\<close> are optional lists (\<open>None\<close> is \<open>nil\<close>).
\<close>

type_synonym int32 = "32 word"
type_synonym gomap = "(string \<times> string) list"

datatype Toleration =
  Toleration (tolKey: string) (tolOperator: string) (tolValue: string) (tolEffect: string)

datatype VolumeMount = VolumeMount (vmName: string) (vmMountPath: string) (vmReadOnly: bool)

datatype EnvVar = EnvVar (envName: string) (envValue: string)

datatype ContainerPort = ContainerPort (portName: string) (portNumber: int32) (portProtocol: string)

datatype ResourceRequirements = ResourceRequirements (resLimits: gomap) (resRequests: gomap)

record Container =
  cName :: string
  cImage :: string
  cVolumeMounts :: "VolumeMount list"
  cEnv :: "EnvVar list"
  cArgs :: "string list option"
  cPorts :: "ContainerPort list option"
  cResources :: ResourceRequirements

record PodSpec =
  Containers :: "Container list"
  NodeSelector :: gomap
  Tolerations :: "Toleration list"

record ObjectMeta =
  Name :: string
  Namespace :: string
  ResourceVersion :: string
  Annotations :: gomap
  Labels :: gomap

record PodTemplateSpec =
  tmplMeta :: ObjectMeta
  tmplSpec :: PodSpec

record Pod =
  podMeta :: ObjectMeta
  podSpec :: PodSpec

record DeploymentSpec =
  Replicas :: "int32 option"
  Selector :: gomap
  Strategy :: string
  ProgressDeadlineSeconds :: "int32 option"
  Paused :: bool
  Template :: PodTemplateSpec

record Deployment =
  dplMeta :: ObjectMeta
  dplSpec :: DeploymentSpec
  dplStatusReplicas :: int32

record StatefulSetSpec =
  stsReplicas :: "int32 option"
  stsTemplate :: PodTemplateSpec

record StatefulSet =
  stsMeta :: ObjectMeta
  stsSpec :: StatefulSetSpec

type_synonym ObjectKey = "string \<times> string"

definition dplKey :: "Deployment \<Rightarrow> ObjectKey" where
  "dplKey d = (Namespace (dplMeta d), Name (dplMeta d))"

definition stsKey :: "StatefulSet \<Rightarrow> ObjectKey" where
  "stsKey s = (Namespace (stsMeta s), Name (stsMeta s))"

section \<open>internal/manifests/pod/compare.go\<close>

text \<open>
  The package \<open>internal/utils/comparators\<close> is not part of the sources at hand. Its six
  functions are parameters of the model, collected in one record.
\<close>

record comparators =
  AreSelectorsSame :: "gomap \<Rightarrow> gomap \<Rightarrow> bool"
  AreTolerationsSame :: "Toleration list \<Rightarrow> Toleration list \<Rightarrow> bool"
  ContainsSameTolerations :: "Toleration list \<Rightarrow> Toleration list \<Rightarrow> bool"
  ContainsSameVolumeMounts :: "VolumeMount list \<Rightarrow> VolumeMount list \<Rightarrow> bool"
  EnvValueEqual :: "EnvVar list \<Rightarrow> EnvVar list \<Rightarrow> bool"
  AreResourceRequementsSame :: "ResourceRequirements \<Rightarrow> ResourceRequirements \<Rightarrow> bool"

text \<open>The six field checks made for a pair of containers with the same name.\<close>

definition compareContainers :: "comparators \<Rightarrow> Container \<Rightarrow> Container \<Rightarrow> bool \<Rightarrow> bool" where
  "compareContainers C lContainer rContainer changed0 =
     (let changed = (if \<not> ContainsSameVolumeMounts C (cVolumeMounts lContainer) (cVolumeMounts rContainer)
                     then True else changed0);
          changed = (if cImage lContainer \<noteq> cImage rContainer then True else changed);
          changed = (if \<not> EnvValueEqual C (cEnv lContainer) (cEnv rContainer) then True else changed);
          changed = (if cArgs lContainer \<noteq> cArgs rContainer then True else changed);
          changed = (if cPorts lContainer \<noteq> cPorts rContainer then True else changed);
          changed = (if \<not> AreResourceRequementsSame C (cResources lContainer) (cResources rContainer)
                     then True else changed)
      in changed)"

text \<open>The inner loop over \<open>rhs.Containers\<close>; the state is the pair \<open>(found, changed)\<close>.\<close>

fun rContainerLoop :: "comparators \<Rightarrow> Container \<Rightarrow> Container list \<Rightarrow> bool \<times> bool \<Rightarrow> bool \<times> bool" where
  "rContainerLoop C lContainer [] fc = fc"
| "rContainerLoop C lContainer (rContainer # rs) (found, changed) =
     (if cName lContainer \<noteq> cName rContainer
      then rContainerLoop C lContainer rs (found, changed)
      else rContainerLoop C lContainer rs (True, compareContainers C lContainer rContainer changed))"

text \<open>The outer loop over \<open>lhs.Containers\<close>.\<close>

fun lContainerLoop :: "comparators \<Rightarrow> Container list \<Rightarrow> Container list \<Rightarrow> bool \<Rightarrow> bool" where
  "lContainerLoop C [] rhs changed = changed"
| "lContainerLoop C (lContainer # ls) rhs changed =
     (case rContainerLoop C lContainer rhs (False, changed) of
        (found, changed') \<Rightarrow>
          lContainerLoop C ls rhs (if \<not> found then True else changed'))"

definition ArePodSpecDifferent :: "comparators \<Rightarrow> PodSpec \<Rightarrow> PodSpec \<Rightarrow> bool \<Rightarrow> bool" where
  "ArePodSpecDifferent C lhs rhs strictTolerations =
     (let changed = False;
          changed = (if length (Containers lhs) \<noteq> length (Containers rhs) then True else changed);
          changed = (if \<not> AreSelectorsSame C (NodeSelector lhs) (NodeSelector rhs) then True else changed);
          changed = (if strictTolerations
                     then (if \<not> AreTolerationsSame C (Tolerations lhs) (Tolerations rhs)
                           then True else changed)
                     else (if \<not> ContainsSameTolerations C (Tolerations lhs) (Tolerations rhs)
                           then True else changed))
      in lContainerLoop C (Containers lhs) (Containers rhs) changed)"

definition ArePodTemplateSpecDifferent :: "comparators \<Rightarrow> PodTemplateSpec \<Rightarrow> PodTemplateSpec \<Rightarrow> bool" where
  "ArePodTemplateSpecDifferent C lhs rhs = ArePodSpecDifferent C (tmplSpec lhs) (tmplSpec rhs) True"

text \<open>
  The pod-spec-difference rule in the words of the specification: the container counts
  differ, or the node selectors differ, or the tolerations differ (the same under the
  strict rule, contained under the other), or some container of the left side has no
  container of that name on the right, or differs from one of that name in its volume
  mounts, image, environment, arguments, ports or resources.
\<close>

definition containerMismatch :: "comparators \<Rightarrow> Container \<Rightarrow> Container \<Rightarrow> bool" where
  "containerMismatch C l r =
     (\<not> ContainsSameVolumeMounts C (cVolumeMounts l) (cVolumeMounts r)
      \<or> cImage l \<noteq> cImage r
      \<or> \<not> EnvValueEqual C (cEnv l) (cEnv r)
      \<or> cArgs l \<noteq> cArgs r
      \<or> cPorts l \<noteq> cPorts r
      \<or> \<not> AreResourceRequementsSame C (cResources l) (cResources r))"

definition podSpecDifferenceRule :: "comparators \<Rightarrow> PodSpec \<Rightarrow> PodSpec \<Rightarrow> bool \<Rightarrow> bool" where
  "podSpecDifferenceRule C lhs rhs strict =
     (length (Containers lhs) \<noteq> length (Containers rhs)
      \<or> \<not> AreSelectorsSame C (NodeSelector lhs) (NodeSelector rhs)
      \<or> (if strict then \<not> AreTolerationsSame C (Tolerations lhs) (Tolerations rhs)
          else \<not> ContainsSameTolerations C (Tolerations lhs) (Tolerations rhs))
      \<or> list_ex (\<lambda>l. \<not> list_ex (\<lambda>r. cName r = cName l) (Containers rhs)
                     \<or> list_ex (\<lambda>r. cName r = cName l \<and> containerMismatch C l r) (Containers rhs))
           (Containers lhs))"

section \<open>Errors and operation results\<close>

text \<open>
  Go errors are values. \<open>KvWrap\<close> and \<open>KvNew\<close> stand for \<open>kverrors.Wrap\<close> and
  \<open>kverrors.New\<close>; \<open>Root\<close> is \<open>kverrors.Root\<close>, which unwraps to the first cause.
\<close>

datatype error =
    NotFound
  | AlreadyExists
  | Conflict
  | ServerError string
  | ErrWaitTimeout
  | KvNew string
  | KvWrap string error

fun Root :: "error \<Rightarrow> error" where
  "Root (KvWrap msg e) = Root e"
| "Root e = e"

definition IsNotFound :: "error \<Rightarrow> bool" where
  "IsNotFound e = (e = NotFound)"

definition IsAlreadyExists :: "error \<Rightarrow> bool" where
  "IsAlreadyExists e = (e = AlreadyExists)"

definition IsConflict :: "error \<Rightarrow> bool" where
  "IsConflict e = (e = Conflict)"

text \<open>internal/manifests/status/create_or_update.go\<close>

datatype OperationResultType = OperationResultNone | OperationResultCreated | OperationResultUpdated

text \<open>
  A call that dereferences a nil pointer does not return: it panics. Functions that can
  do so return an \<open>exec\<close>.
\<close>

datatype 'a exec = Returned 'a | NilPointerPanic

section \<open>The cluster API as seen through \<open>client.Client\<close>\<close>

text \<open>
  The backend is an explicit state. Workload objects are kept in lists and found by
  their own namespace and name. \<open>faults\<close> is a script of injected failures: every client
  call takes the head of the script, and fails with it when it is an error. \<open>requests\<close>
  records every mutating request sent, in order, whether it was accepted or not.
  \<open>future\<close> is what the cluster's own controllers do while the operator sleeps between
  two polls: they change the pods and assign the revision annotation of a deployment.
  The operator is the only writer of workloads, so a conflict on update is an injected
  fault, not a comparison of resource versions.
\<close>

datatype request =
    CreateDeployment Deployment
  | UpdateDeployment Deployment
  | UpdateStatefulSet StatefulSet

datatype envEvent =
    Quiet
  | PodsBecome "Pod list"
  | RevisionAssigned ObjectKey string

record world =
  deployments :: "Deployment list"
  statefulsets :: "StatefulSet list"
  pods :: "Pod list"
  configmaps :: "ObjectKey \<rightharpoonup> gomap"
  secrets :: "ObjectKey \<rightharpoonup> gomap"
  faults :: "error option list"
  requests :: "request list"
  future :: "envEvent list"
  generation :: nat

definition nextFault :: "world \<Rightarrow> error option \<times> world" where
  "nextFault w = (case faults w of [] \<Rightarrow> (None, w) | f # fs \<Rightarrow> (f, w\<lparr>faults := fs\<rparr>))"

definition lookupDeployment :: "world \<Rightarrow> ObjectKey \<Rightarrow> Deployment option" where
  "lookupDeployment w key = find (\<lambda>d. dplKey d = key) (deployments w)"

definition lookupStatefulSet :: "world \<Rightarrow> ObjectKey \<Rightarrow> StatefulSet option" where
  "lookupStatefulSet w key = find (\<lambda>s. stsKey s = key) (statefulsets w)"

text \<open>The server's resource version is an opaque, non-empty string.\<close>

definition newResourceVersion :: "nat \<Rightarrow> string" where
  "newResourceVersion n = CHR ''r'' # replicate n CHR ''i''"

definition c_GetDeployment :: "world \<Rightarrow> ObjectKey \<Rightarrow> world \<times> (error + Deployment)" where
  "c_GetDeployment w key =
     (case nextFault w of
        (Some e, w') \<Rightarrow> (w', Inl e)
      | (None, w') \<Rightarrow>
          (case lookupDeployment w' key of
             None \<Rightarrow> (w', Inl NotFound)
           | Some d \<Rightarrow> (w', Inr d)))"

definition c_CreateDeployment :: "world \<Rightarrow> Deployment \<Rightarrow> world \<times> Deployment \<times> error option" where
  "c_CreateDeployment w0 dpl =
     (case nextFault (w0\<lparr>requests := requests w0 @ [CreateDeployment dpl]\<rparr>) of
        (Some e, w') \<Rightarrow> (w', dpl, Some e)
      | (None, w') \<Rightarrow>
          (case lookupDeployment w' (dplKey dpl) of
             Some d \<Rightarrow> (w', dpl, Some AlreadyExists)
           | None \<Rightarrow>
               (let stored = dpl\<lparr>dplMeta := (dplMeta dpl)\<lparr>ResourceVersion := newResourceVersion (generation w')\<rparr>\<rparr>
                in (w'\<lparr>deployments := deployments w' @ [stored], generation := Suc (generation w')\<rparr>,
                    stored, None))))"

definition c_UpdateDeployment :: "world \<Rightarrow> Deployment \<Rightarrow> world \<times> error option" where
  "c_UpdateDeployment w0 obj =
     (case nextFault (w0\<lparr>requests := requests w0 @ [UpdateDeployment obj]\<rparr>) of
        (Some e, w') \<Rightarrow> (w', Some e)
      | (None, w') \<Rightarrow>
          (case lookupDeployment w' (dplKey obj) of
             None \<Rightarrow> (w', Some NotFound)
           | Some d \<Rightarrow>
               (let stored = obj\<lparr>dplMeta := (dplMeta obj)\<lparr>ResourceVersion := newResourceVersion (generation w')\<rparr>\<rparr>
                in (w'\<lparr>deployments := map (\<lambda>d. if dplKey d = dplKey obj then stored else d) (deployments w'),
                        generation := Suc (generation w')\<rparr>,
                    None))))"

definition c_GetStatefulSet :: "world \<Rightarrow> ObjectKey \<Rightarrow> world \<times> (error + StatefulSet)" where
  "c_GetStatefulSet w key =
     (case nextFault w of
        (Some e, w') \<Rightarrow> (w', Inl e)
      | (None, w') \<Rightarrow>
          (case lookupStatefulSet w' key of
             None \<Rightarrow> (w', Inl NotFound)
           | Some s \<Rightarrow> (w', Inr s)))"

definition c_UpdateStatefulSet :: "world \<Rightarrow> StatefulSet \<Rightarrow> world \<times> error option" where
  "c_UpdateStatefulSet w0 obj =
     (case nextFault (w0\<lparr>requests := requests w0 @ [UpdateStatefulSet obj]\<rparr>) of
        (Some e, w') \<Rightarrow> (w', Some e)
      | (None, w') \<Rightarrow>
          (case lookupStatefulSet w' (stsKey obj) of
             None \<Rightarrow> (w', Some NotFound)
           | Some s \<Rightarrow>
               (let stored = obj\<lparr>stsMeta := (stsMeta obj)\<lparr>ResourceVersion := newResourceVersion (generation w')\<rparr>\<rparr>
                in (w'\<lparr>statefulsets := map (\<lambda>s. if stsKey s = stsKey obj then stored else s) (statefulsets w'),
                        generation := Suc (generation w')\<rparr>,
                    None))))"

text \<open>\<open>c.List\<close> with \<open>client.InNamespace\<close> and \<open>client.MatchingLabels\<close>.\<close>

definition matchesLabels :: "gomap \<Rightarrow> Pod \<Rightarrow> bool" where
  "matchesLabels selector p =
     list_all (\<lambda>kv. map_of (Labels (podMeta p)) (fst kv) = Some (snd kv)) selector"

definition c_ListPods :: "world \<Rightarrow> string \<Rightarrow> gomap \<Rightarrow> world \<times> (error + Pod list)" where
  "c_ListPods w namespace selector =
     (case nextFault w of
        (Some e, w') \<Rightarrow> (w', Inl e)
      | (None, w') \<Rightarrow>
          (w', Inr (filter (\<lambda>p. Namespace (podMeta p) = namespace \<and> matchesLabels selector p) (pods w'))))"

definition c_GetConfigMap :: "world \<Rightarrow> ObjectKey \<Rightarrow> world \<times> (error + gomap)" where
  "c_GetConfigMap w key =
     (case nextFault w of
        (Some e, w') \<Rightarrow> (w', Inl e)
      | (None, w') \<Rightarrow>
          (case configmaps w' key of
             None \<Rightarrow> (w', Inl NotFound)
           | Some cm \<Rightarrow> (w', Inr cm)))"

definition c_GetSecret :: "world \<Rightarrow> ObjectKey \<Rightarrow> world \<times> (error + gomap)" where
  "c_GetSecret w key =
     (case nextFault w of
        (Some e, w') \<Rightarrow> (w', Inl e)
      | (None, w') \<Rightarrow>
          (case secrets w' key of
             None \<Rightarrow> (w', Inl NotFound)
           | Some sec \<Rightarrow> (w', Inr sec)))"

subsection \<open>What the cluster does between two polls\<close>

definition assignRevision :: "ObjectKey \<Rightarrow> string \<Rightarrow> Deployment \<Rightarrow> Deployment" where
  "assignRevision key revision d =
     (if dplKey d = key
      then d\<lparr>dplMeta := (dplMeta d)\<lparr>Annotations :=
               AList.update ''deployment.kubernetes.io/revision'' revision (Annotations (dplMeta d))\<rparr>\<rparr>
      else d)"

fun applyEvent :: "envEvent \<Rightarrow> world \<Rightarrow> world" where
  "applyEvent Quiet w = w"
| "applyEvent (PodsBecome ps) w = w\<lparr>pods := ps\<rparr>"
| "applyEvent (RevisionAssigned key revision) w =
     w\<lparr>deployments := map (assignRevision key revision) (deployments w)\<rparr>"

definition tick :: "world \<Rightarrow> world" where
  "tick w = (case future w of [] \<Rightarrow> w | ev # evs \<Rightarrow> applyEvent ev (w\<lparr>future := evs\<rparr>))"

subsection \<open>\<open>wait.Poll\<close> and \<open>retry.RetryOnConflict\<close>\<close>

text \<open>
  \<open>wait.Poll interval timeout condition\<close> runs the condition at every tick of a ticker
  with the given interval, and once more when the timeout closes the ticker's channel;
  it returns as soon as the condition is true or returns an error, and \<open>ErrWaitTimeout\<close>
  when the last run is false. Time is counted in polls: with a timeout of \<open>t\<close> seconds and
  an interval of \<open>i\<close> seconds the condition runs at most \<open>t div i + 1\<close> times.
\<close>

fun pollLoop :: "nat \<Rightarrow> (world \<Rightarrow> world \<times> bool \<times> error option) \<Rightarrow> world \<Rightarrow> world \<times> error option" where
  "pollLoop 0 condition w = (w, Some ErrWaitTimeout)"
| "pollLoop (Suc k) condition w =
     (case condition (tick w) of
        (w', done, Some err) \<Rightarrow> (w', Some err)
      | (w', True, None) \<Rightarrow> (w', None)
      | (w', False, None) \<Rightarrow> pollLoop k condition w')"

definition wait_Poll :: "nat \<Rightarrow> nat \<Rightarrow> (world \<Rightarrow> world \<times> bool \<times> error option) \<Rightarrow> world \<Rightarrow> world \<times> error option" where
  "wait_Poll interval timeout condition w = pollLoop (timeout div interval + 1) condition w"

text \<open>
  \<open>retry.RetryOnConflict retry.DefaultRetry fn\<close>: \<open>fn\<close> runs up to five times; a conflict is
  retried, any other error is returned at once, and after the last conflict that
  conflict is returned.
\<close>

fun retryLoop :: "nat \<Rightarrow> (world \<Rightarrow> world \<times> error option) \<Rightarrow> world \<Rightarrow> error option \<Rightarrow> world \<times> error option" where
  "retryLoop 0 fn w lastErr = (w, lastErr)"
| "retryLoop (Suc k) fn w lastErr =
     (case fn w of
        (w', None) \<Rightarrow> (w', None)
      | (w', Some err) \<Rightarrow>
          (if IsConflict err then retryLoop k fn w' (Some err) else (w', Some err)))"

definition DefaultRetrySteps :: nat where
  "DefaultRetrySteps = 5"

definition RetryOnConflict :: "(world \<Rightarrow> world \<times> error option) \<Rightarrow> world \<Rightarrow> world \<times> error option" where
  "RetryOnConflict fn w = retryLoop DefaultRetrySteps fn w None"

section \<open>internal/manifests/deployment/deployment.go\<close>

definition deployment_Get :: "world \<Rightarrow> ObjectKey \<Rightarrow> world \<times> (error + Deployment)" where
  "deployment_Get w key =
     (case c_GetDeployment w key of
        (w', Inl err) \<Rightarrow> (w', Inl (KvWrap ''failed to get deployment'' err))
      | (w', Inr dpl) \<Rightarrow> (w', Inr dpl))"

text \<open>\<open>Create\<close> writes the server's answer into the object it was given: the object is returned.\<close>

definition deployment_Create :: "world \<Rightarrow> Deployment \<Rightarrow> world \<times> Deployment \<times> OperationResultType \<times> error option" where
  "deployment_Create w dpl =
     (case c_CreateDeployment w dpl of
        (w', dpl', None) \<Rightarrow> (w', dpl', OperationResultCreated, None)
      | (w', dpl', Some err) \<Rightarrow>
          (if IsAlreadyExists (Root err) then (w', dpl', OperationResultNone, None)
           else (w', dpl', OperationResultNone, Some (KvWrap ''failed to create deployment'' err))))"

text \<open>The function passed to \<open>RetryOnConflict\<close> by \<open>Update\<close>: get, mutate, update.\<close>

definition deployment_updateAttempt ::
  "ObjectKey \<Rightarrow> Deployment \<Rightarrow> (Deployment \<Rightarrow> Deployment \<Rightarrow> Deployment) \<Rightarrow> world \<Rightarrow> world \<times> error option" where
  "deployment_updateAttempt key dpl mutate w =
     (case c_GetDeployment w key of
        (w', Inl err) \<Rightarrow> (w', Some err)
      | (w', Inr current) \<Rightarrow> c_UpdateDeployment w' (mutate current dpl))"

definition deployment_Update ::
  "world \<Rightarrow> Deployment \<Rightarrow> (Deployment \<Rightarrow> Deployment \<Rightarrow> bool) \<Rightarrow> (Deployment \<Rightarrow> Deployment \<Rightarrow> Deployment)
     \<Rightarrow> world \<times> OperationResultType \<times> error option" where
  "deployment_Update w dpl cmp mutate =
     (case c_GetDeployment w (dplKey dpl) of
        (w1, Inl err) \<Rightarrow> (w1, OperationResultNone, Some (KvWrap ''failed to get deployment'' err))
      | (w1, Inr current) \<Rightarrow>
          (if \<not> cmp current dpl
           then (case RetryOnConflict (deployment_updateAttempt (dplKey dpl) dpl mutate) w1 of
                   (w2, Some err) \<Rightarrow> (w2, OperationResultNone, Some (KvWrap ''failed to update deployment'' err))
                 | (w2, None) \<Rightarrow> (w2, OperationResultUpdated, None))
           else (w1, OperationResultNone, None)))"

section \<open>internal/manifests/statefulset/statefulset.go\<close>

definition statefulset_updateAttempt ::
  "ObjectKey \<Rightarrow> StatefulSet \<Rightarrow> (StatefulSet \<Rightarrow> StatefulSet \<Rightarrow> StatefulSet) \<Rightarrow> world \<Rightarrow> world \<times> error option" where
  "statefulset_updateAttempt key sts mutate w =
     (case c_GetStatefulSet w key of
        (w', Inl err) \<Rightarrow> (w', Some err)
      | (w', Inr current) \<Rightarrow> c_UpdateStatefulSet w' (mutate current sts))"

definition statefulset_Update ::
  "world \<Rightarrow> StatefulSet \<Rightarrow> (StatefulSet \<Rightarrow> StatefulSet \<Rightarrow> bool) \<Rightarrow> (StatefulSet \<Rightarrow> StatefulSet \<Rightarrow> StatefulSet)
     \<Rightarrow> world \<times> OperationResultType \<times> error option" where
  "statefulset_Update w sts cmp mutate =
     (case c_GetStatefulSet w (stsKey sts) of
        (w1, Inl err) \<Rightarrow> (w1, OperationResultNone, Some (KvWrap ''failed to get statefulset'' err))
      | (w1, Inr current) \<Rightarrow>
          (if cmp current sts
           then (case RetryOnConflict (statefulset_updateAttempt (stsKey sts) sts mutate) w1 of
                   (w2, Some err) \<Rightarrow> (w2, OperationResultNone, Some (KvWrap ''failed to update statefulset'' err))
                 | (w2, None) \<Rightarrow> (w2, OperationResultUpdated, None))
           else (w1, OperationResultNone, None)))"

section \<open>Packages pod, configmap and secret\<close>

text \<open>
  Modelled from the spec: \<open>pod.List\<close> (package \<open>internal/manifests/pod\<close>) is not among the
  sources; the specification names it \<open>listPods\<close>, returning the pods of a namespace that
  carry the given labels. It is written as \<open>deployment.ListPods\<close> of deployment.go is.
\<close>

definition pod_List :: "world \<Rightarrow> string \<Rightarrow> gomap \<Rightarrow> world \<times> (error + Pod list)" where
  "pod_List w namespace selector =
     (case c_ListPods w namespace selector of
        (w', Inl err) \<Rightarrow> (w', Inl (KvWrap ''failed to list pods'' err))
      | (w', Inr items) \<Rightarrow> (w', Inr items))"

definition configmap_Get :: "world \<Rightarrow> ObjectKey \<Rightarrow> world \<times> (error + gomap)" where
  "configmap_Get w key =
     (case c_GetConfigMap w key of
        (w', Inl err) \<Rightarrow> (w', Inl (KvWrap ''failed to get configmap'' err))
      | (w', Inr cm) \<Rightarrow> (w', Inr cm))"

definition secret_Get :: "world \<Rightarrow> ObjectKey \<Rightarrow> world \<times> (error + gomap)" where
  "secret_Get w key =
     (case c_GetSecret w key of
        (w', Inl err) \<Rightarrow> (w', Inl (KvWrap ''failed to get secret'' err))
      | (w', Inr s) \<Rightarrow> (w', Inr s))"

section \<open>Fingerprints: \<open>getSecretDataHash\<close> and \<open>getConfigmapDataHash\<close>\<close>

text \<open>
  \<open>sha256.Sum256\<close> is a parameter \<open>sum256\<close>. The loop over the Go map of the bundle fills
  the map \<open>dataHashes\<close> by assignment; the list given is the order in which the loop
  happens to visit the keys.
\<close>

definition secretDataHashes :: "(string \<Rightarrow> string) \<Rightarrow> gomap \<Rightarrow> gomap" where
  "secretDataHashes sum256 bundle =
     fold (\<lambda>kv dataHashes. AList.update (fst kv) (sum256 (snd kv)) dataHashes) bundle []"

definition configmapDataHashes :: "(string \<Rightarrow> string) \<Rightarrow> gomap \<Rightarrow> gomap" where
  "configmapDataHashes sum256 bundle =
     fold (\<lambda>kv dataHashes.
             if fst kv \<noteq> ''index_settings''
             then AList.update (fst kv) (sum256 (snd kv)) dataHashes
             else dataHashes) bundle []"

text \<open>
  Modelled from the spec: \<open>sortDataHashKeys\<close> is not among the sources; the specification
  says that the keys are sorted lexicographically.
\<close>

definition sortDataHashKeys :: "gomap \<Rightarrow> string list" where
  "sortDataHashKeys dataHashes = sort (map fst dataHashes)"

text \<open>Reading a Go map at a key it does not hold gives the zero value, here 32 zero bytes.\<close>

definition hashAt :: "gomap \<Rightarrow> string \<Rightarrow> string" where
  "hashAt dataHashes key =
     (case map_of dataHashes key of Some h \<Rightarrow> h | None \<Rightarrow> replicate 32 (char_of (0::nat)))"

text \<open>The loop \<open>hash = fmt.Sprintf("%s%s", hash, dataHashes[key])\<close> over the sorted keys.\<close>

definition appendHashes :: "gomap \<Rightarrow> string list \<Rightarrow> string" where
  "appendHashes dataHashes sortedKeys = fold (\<lambda>key hash. hash @ hashAt dataHashes key) sortedKeys []"

definition secretDataDigest :: "(string \<Rightarrow> string) \<Rightarrow> gomap \<Rightarrow> string" where
  "secretDataDigest sum256 bundle =
     (let dataHashes = secretDataHashes sum256 bundle
      in appendHashes dataHashes (sortDataHashKeys dataHashes))"

definition configmapDataDigest :: "(string \<Rightarrow> string) \<Rightarrow> gomap \<Rightarrow> string" where
  "configmapDataDigest sum256 bundle =
     (let dataHashes = configmapDataHashes sum256 bundle
      in appendHashes dataHashes (sortDataHashKeys dataHashes))"

definition getSecretDataHash :: "(string \<Rightarrow> string) \<Rightarrow> world \<Rightarrow> string \<Rightarrow> string \<Rightarrow> world \<times> string" where
  "getSecretDataHash sum256 w secretName namespace =
     (case secret_Get w (namespace, secretName) of
        (w', Inl err) \<Rightarrow> (w', [])
      | (w', Inr sec) \<Rightarrow> (w', secretDataDigest sum256 sec))"

text \<open>
  On a failed fetch \<open>configmap.Get\<close> returns a nil pointer; the error branch of
  \<open>getConfigmapDataHash\<close> is empty, and the loop then reads \<open>cm.Data\<close>.
\<close>

definition getConfigmapDataHash :: "(string \<Rightarrow> string) \<Rightarrow> world \<Rightarrow> string \<Rightarrow> string \<Rightarrow> world \<times> string exec" where
  "getConfigmapDataHash sum256 w configmapName namespace =
     (case configmap_Get w (namespace, configmapName) of
        (w', Inl err) \<Rightarrow> (w', NilPointerPanic)
      | (w', Inr cm) \<Rightarrow> (w', Returned (configmapDataDigest sum256 cm)))"

section \<open>The deployment-backed node group\<close>

record deploymentNode =
  self :: Deployment
  configmapHash :: string
  secretHash :: string
  clusterName :: string
  replicas :: int32

text \<open>
  What the node-group code takes from outside the sources at hand: the comparators, the
  hash function, and \<open>createUpdatablePodTemplateSpec\<close>.
\<close>

record collaborators =
  comparing :: comparators
  Sum256 :: "string \<Rightarrow> string"
  createUpdatablePodTemplateSpec :: "PodTemplateSpec \<Rightarrow> PodTemplateSpec \<Rightarrow> PodTemplateSpec"

text \<open>
  The builder of package deployment is not among the sources. \<open>New\<close> is taken to set the
  name, namespace, labels and replica count it is given and to leave every other field
  at Go's zero value, and each \<open>With\<close> to set its field. \<open>populateReference\<close> gives the
  builder no paused flag; the comment in \<open>create\<close> reads "created unpaused, pause after
  deployment". The labels, the selector and the pod template are computed by functions
  outside the sources and are arguments here.
\<close>

definition deployment_New :: "string \<Rightarrow> string \<Rightarrow> gomap \<Rightarrow> int32 \<Rightarrow> Deployment" where
  "deployment_New deploymentName namespace labels replicas' =
     \<lparr>dplMeta = \<lparr>Name = deploymentName, Namespace = namespace, ResourceVersion = [],
                 Annotations = [], Labels = labels\<rparr>,
      dplSpec = \<lparr>Replicas = Some replicas', Selector = [], Strategy = [],
                 ProgressDeadlineSeconds = None, Paused = False,
                 Template = \<lparr>tmplMeta = \<lparr>Name = [], Namespace = [], ResourceVersion = [],
                                          Annotations = [], Labels = []\<rparr>,
                             tmplSpec = \<lparr>Containers = [], NodeSelector = [], Tolerations = []\<rparr>\<rparr>\<rparr>,
      dplStatusReplicas = 0\<rparr>"

definition populateReference ::
  "deploymentNode \<Rightarrow> string \<Rightarrow> string \<Rightarrow> string \<Rightarrow> gomap \<Rightarrow> gomap \<Rightarrow> PodTemplateSpec \<Rightarrow> int32 \<Rightarrow> deploymentNode" where
  "populateReference node nodeName clusterName' clusterNamespace labels selector template replicas' =
     (let dpl = deployment_New nodeName clusterNamespace labels replicas';
          dpl = dpl\<lparr>dplSpec := (dplSpec dpl)\<lparr>Selector := selector\<rparr>\<rparr>;
          dpl = dpl\<lparr>dplSpec := (dplSpec dpl)\<lparr>Strategy := ''Recreate''\<rparr>\<rparr>;
          dpl = dpl\<lparr>dplSpec := (dplSpec dpl)\<lparr>ProgressDeadlineSeconds := Some 1800\<rparr>\<rparr>;
          dpl = dpl\<lparr>dplSpec := (dplSpec dpl)\<lparr>Template := template\<rparr>\<rparr>
      in node\<lparr>self := dpl, clusterName := clusterName', replicas := replicas'\<rparr>)"

definition name :: "deploymentNode \<Rightarrow> string" where
  "name node = Name (dplMeta (self node))"

definition setPausedOf :: "bool \<Rightarrow> Deployment \<Rightarrow> Deployment" where
  "setPausedOf paused current = current\<lparr>dplSpec := (dplSpec current)\<lparr>Paused := paused\<rparr>\<rparr>"

definition setReplicasOf :: "int32 \<Rightarrow> Deployment \<Rightarrow> Deployment" where
  "setReplicasOf replicas' current = current\<lparr>dplSpec := (dplSpec current)\<lparr>Replicas := Some replicas'\<rparr>\<rparr>"

definition setPaused :: "world \<Rightarrow> deploymentNode \<Rightarrow> bool \<Rightarrow> world \<times> deploymentNode \<times> error option" where
  "setPaused w node paused =
     (case deployment_Update w (self node) (\<lambda>_ _. False) (\<lambda>current _. setPausedOf paused current) of
        (w', res, Some err) \<Rightarrow>
          (w', node, Some (KvWrap ''failed to update elasticsearch node deployment'' err))
      | (w', res, None) \<Rightarrow> (w', node\<lparr>self := setPausedOf paused (self node)\<rparr>, None))"

definition pause :: "world \<Rightarrow> deploymentNode \<Rightarrow> world \<times> deploymentNode \<times> error option" where
  "pause w node = setPaused w node True"

definition unpause :: "world \<Rightarrow> deploymentNode \<Rightarrow> world \<times> deploymentNode \<times> error option" where
  "unpause w node = setPaused w node False"

definition setReplicaCount :: "world \<Rightarrow> deploymentNode \<Rightarrow> int32 \<Rightarrow> world \<times> deploymentNode \<times> error option" where
  "setReplicaCount w node replicas' =
     (case deployment_Update w (self node) (\<lambda>_ _. True) (\<lambda>current _. setReplicasOf replicas' current) of
        (w', res, Some err) \<Rightarrow>
          (w', node, Some (KvWrap ''failed to update elasticsearch node deployment'' err))
      | (w', res, None) \<Rightarrow> (w', node\<lparr>self := setReplicasOf replicas' (self node)\<rparr>, None))"

definition scaleDown :: "world \<Rightarrow> deploymentNode \<Rightarrow> world \<times> deploymentNode \<times> error option" where
  "scaleDown w node = setReplicaCount w node 0"

definition scaleUp :: "world \<Rightarrow> deploymentNode \<Rightarrow> world \<times> deploymentNode \<times> error option" where
  "scaleUp w node = setReplicaCount w node (replicas node)"

text \<open>The loop of \<open>checkPodSpecMatches\<close> over the listed pods.\<close>

fun podLoop :: "comparators \<Rightarrow> PodSpec \<Rightarrow> Pod list \<Rightarrow> bool" where
  "podLoop C desired [] = False"
| "podLoop C desired (p # ps) =
     (if \<not> ArePodSpecDifferent C (podSpec p) desired False then True else podLoop C desired ps)"

definition desiredPodSpec :: "deploymentNode \<Rightarrow> PodSpec" where
  "desiredPodSpec node = tmplSpec (Template (dplSpec (self node)))"

definition checkPodSpecMatches :: "comparators \<Rightarrow> world \<Rightarrow> deploymentNode \<Rightarrow> gomap \<Rightarrow> world \<times> bool" where
  "checkPodSpecMatches C w node labels =
     (case pod_List w (Namespace (dplMeta (self node))) labels of
        (w', Inl err) \<Rightarrow> (w', False)
      | (w', Inr podList) \<Rightarrow> (w', podLoop C (desiredPodSpec node) podList))"

definition podLabels :: "deploymentNode \<Rightarrow> gomap" where
  "podLabels node = [(''node-name'', name node)]"

definition podSpecMatches :: "comparators \<Rightarrow> world \<Rightarrow> deploymentNode \<Rightarrow> world \<times> bool" where
  "podSpecMatches C w node = checkPodSpecMatches C w node (podLabels node)"

definition rolloutCondition :: "comparators \<Rightarrow> deploymentNode \<Rightarrow> world \<Rightarrow> world \<times> bool \<times> error option" where
  "rolloutCondition C node w =
     (case checkPodSpecMatches C w node (podLabels node) of (w', done) \<Rightarrow> (w', done, None))"

definition waitForNodeRollout :: "comparators \<Rightarrow> world \<Rightarrow> deploymentNode \<Rightarrow> world \<times> error option" where
  "waitForNodeRollout C w node = wait_Poll 1 30 (rolloutCondition C node) w"

definition initialRolloutCondition :: "deploymentNode \<Rightarrow> world \<Rightarrow> world \<times> bool \<times> error option" where
  "initialRolloutCondition node w =
     (case deployment_Get w (Namespace (dplMeta (self node)), Name (dplMeta (self node))) of
        (w', Inl err) \<Rightarrow> (w', False, Some err)
      | (w', Inr dpl) \<Rightarrow>
          (case map_of (Annotations (dplMeta dpl)) ''deployment.kubernetes.io/revision'' of
             Some v \<Rightarrow> (w', True, None)
           | None \<Rightarrow> (w', False, None)))"

definition waitForInitialRollout :: "world \<Rightarrow> deploymentNode \<Rightarrow> world \<times> error option" where
  "waitForInitialRollout w node = wait_Poll 1 30 (initialRolloutCondition node) w"

definition isChanged :: "comparators \<Rightarrow> world \<Rightarrow> deploymentNode \<Rightarrow> world \<times> bool" where
  "isChanged C w node =
     (case deployment_Get w (Namespace (dplMeta (self node)), name node) of
        (w', Inl err) \<Rightarrow> (if IsNotFound (Root err) then (w', True) else (w', False))
      | (w', Inr current) \<Rightarrow>
          (w', ArePodTemplateSpecDifferent C (Template (dplSpec current)) (Template (dplSpec (self node)))))"

definition templateCompare :: "collaborators \<Rightarrow> Deployment \<Rightarrow> Deployment \<Rightarrow> bool" where
  "templateCompare D current desired =
     ArePodTemplateSpecDifferent (comparing D) (Template (dplSpec current)) (Template (dplSpec desired))"

definition templateMutate :: "collaborators \<Rightarrow> Deployment \<Rightarrow> Deployment \<Rightarrow> Deployment" where
  "templateMutate D current desired =
     current\<lparr>dplSpec := (dplSpec current)\<lparr>Template :=
       createUpdatablePodTemplateSpec D (Template (dplSpec current)) (Template (dplSpec desired))\<rparr>\<rparr>"

definition executeUpdate :: "collaborators \<Rightarrow> world \<Rightarrow> deploymentNode \<Rightarrow> world \<times> error option" where
  "executeUpdate D w node =
     (case deployment_Update w (self node) (templateCompare D) (templateMutate D) of
        (w', res, Some err) \<Rightarrow> (w', Some (KvWrap ''failed to update elasticsearch node deployment'' err))
      | (w', res, None) \<Rightarrow> (w', None))"

definition refreshHashes :: "collaborators \<Rightarrow> world \<Rightarrow> deploymentNode \<Rightarrow> world \<times> deploymentNode exec" where
  "refreshHashes D w node =
     (case getConfigmapDataHash (Sum256 D) w (clusterName node) (Namespace (dplMeta (self node))) of
        (w1, NilPointerPanic) \<Rightarrow> (w1, NilPointerPanic)
      | (w1, Returned newConfigmapHash) \<Rightarrow>
          (let node1 = (if newConfigmapHash \<noteq> configmapHash node
                        then node\<lparr>configmapHash := newConfigmapHash\<rparr> else node)
           in case getSecretDataHash (Sum256 D) w1 (clusterName node1) (Namespace (dplMeta (self node1))) of
                (w2, newSecretHash) \<Rightarrow>
                  (w2, Returned (if newSecretHash \<noteq> secretHash node1
                                 then node1\<lparr>secretHash := newSecretHash\<rparr> else node1))))"

definition progressNodeChanges ::
  "collaborators \<Rightarrow> world \<Rightarrow> deploymentNode \<Rightarrow> world \<times> deploymentNode \<times> error option exec" where
  "progressNodeChanges D w node =
     (case isChanged (comparing D) w node of
        (w1, changed) \<Rightarrow>
          (case (if \<not> changed then podSpecMatches (comparing D) w1 node else (w1, False)) of
             (w2, True) \<Rightarrow> (w2, node, Returned None)
           | (w2, False) \<Rightarrow>
               (case executeUpdate D w2 node of
                  (w3, Some err) \<Rightarrow> (w3, node, Returned (Some err))
                | (w3, None) \<Rightarrow>
                    (case unpause w3 node of
                       (w4, node4, Some err) \<Rightarrow>
                         (w4, node4, Returned (Some (KvWrap ''unable to unpause node'' err)))
                     | (w4, node4, None) \<Rightarrow>
                         (case waitForNodeRollout (comparing D) w4 node4 of
                            (w5, Some err) \<Rightarrow>
                              (w5, node4, Returned (Some (KvNew ''timed out waiting for node to rollout'')))
                          | (w5, None) \<Rightarrow>
                              (case pause w5 node4 of
                                 (w6, node6, Some err) \<Rightarrow>
                                   (w6, node6, Returned (Some (KvWrap ''unable to pause node'' err)))
                               | (w6, node6, None) \<Rightarrow>
                                   (case refreshHashes D w6 node6 of
                                      (w7, NilPointerPanic) \<Rightarrow> (w7, node6, NilPointerPanic)
                                    | (w7, Returned node7) \<Rightarrow> (w7, node7, Returned None))))))))"

definition pauseAndReturn :: "world \<Rightarrow> deploymentNode \<Rightarrow> world \<times> deploymentNode \<times> error option exec" where
  "pauseAndReturn w node = (case pause w node of (w', node', err) \<Rightarrow> (w', node', Returned err))"

definition create ::
  "collaborators \<Rightarrow> world \<Rightarrow> deploymentNode \<Rightarrow> world \<times> deploymentNode \<times> error option exec" where
  "create D w node =
     (if ResourceVersion (dplMeta (self node)) = []
      then (case deployment_Create w (self node) of
              (w1, self1, res, Some err) \<Rightarrow>
                (if \<not> IsAlreadyExists (Root err)
                 then (w1, node\<lparr>self := self1\<rparr>,
                       Returned (Some (KvWrap ''failed to create or update elasticsearch node deployment'' err)))
                 else pauseAndReturn w1 (node\<lparr>self := self1\<rparr>))
            | (w1, self1, res, None) \<Rightarrow>
                (case waitForInitialRollout w1 (node\<lparr>self := self1\<rparr>) of
                   (w2, Some err) \<Rightarrow> (w2, node\<lparr>self := self1\<rparr>, Returned (Some err))
                 | (w2, None) \<Rightarrow>
                     (case getConfigmapDataHash (Sum256 D) w2 (clusterName node) (Namespace (dplMeta self1)) of
                        (w3, NilPointerPanic) \<Rightarrow> (w3, node\<lparr>self := self1\<rparr>, NilPointerPanic)
                      | (w3, Returned cmHash) \<Rightarrow>
                          (case getSecretDataHash (Sum256 D) w3 (clusterName node) (Namespace (dplMeta self1)) of
                             (w4, secHash) \<Rightarrow>
                               pauseAndReturn w4
                                 (node\<lparr>self := self1, configmapHash := cmHash, secretHash := secHash\<rparr>)))))
      else pauseAndReturn w node)"

section \<open>Concrete inputs\<close>

text \<open>
  An instance of the comparators, after the comment on \<open>ArePodSpecDifferent\<close>: selectors
  and strict tolerations have to be the same, the other checks ask that everything on the
  right is found on the left.
\<close>

definition exampleComparators :: comparators where
  "exampleComparators =
     \<lparr>AreSelectorsSame = (\<lambda>lhs rhs. length lhs = length rhs
                            \<and> list_all (\<lambda>kv. map_of rhs (fst kv) = Some (snd kv)) lhs),
      AreTolerationsSame = (\<lambda>lhs rhs. length lhs = length rhs \<and> list_all (List.member lhs) rhs),
      ContainsSameTolerations = (\<lambda>lhs rhs. list_all (List.member lhs) rhs),
      ContainsSameVolumeMounts = (\<lambda>lhs rhs. list_all (List.member lhs) rhs),
      EnvValueEqual = (\<lambda>lhs rhs. lhs = rhs),
      AreResourceRequementsSame = (\<lambda>lhs rhs. lhs = rhs)\<rparr>"

text \<open>A stand-in for the hash function with results of 32 bytes.\<close>

definition exampleSum256 :: "string \<Rightarrow> string" where
  "exampleSum256 v = take 32 (v @ replicate 32 CHR ''0'')"

definition exampleCollaborators :: collaborators where
  "exampleCollaborators =
     \<lparr>comparing = exampleComparators, Sum256 = exampleSum256,
      createUpdatablePodTemplateSpec = (\<lambda>current desired. desired)\<rparr>"

definition zeroNode :: deploymentNode where
  "zeroNode = \<lparr>self = deployment_New [] [] [] 0, configmapHash = [], secretHash = [],
               clusterName = [], replicas = 0\<rparr>"

definition exampleContainer :: Container where
  "exampleContainer =
     \<lparr>cName = ''elasticsearch'', cImage = ''elasticsearch6:6.8.1'', cVolumeMounts = [],
      cEnv = [], cArgs = None, cPorts = None, cResources = ResourceRequirements [] []\<rparr>"

definition emptyMeta :: ObjectMeta where
  "emptyMeta = \<lparr>Name = [], Namespace = [], ResourceVersion = [], Annotations = [], Labels = []\<rparr>"

definition exampleTemplate :: PodTemplateSpec where
  "exampleTemplate =
     \<lparr>tmplMeta = emptyMeta,
      tmplSpec = \<lparr>Containers = [exampleContainer], NodeSelector = [], Tolerations = []\<rparr>\<rparr>"

definition exampleNode :: deploymentNode where
  "exampleNode = populateReference zeroNode ''es-cdm-1'' ''es'' ''logging'' [] [] exampleTemplate 3"

definition examplePod :: "string \<Rightarrow> PodSpec \<Rightarrow> Pod" where
  "examplePod podName spec =
     \<lparr>podMeta = \<lparr>Name = podName, Namespace = ''logging'', ResourceVersion = ''r'',
                 Annotations = [], Labels = [(''node-name'', ''es-cdm-1'')]\<rparr>,
      podSpec = spec\<rparr>"

definition emptyWorld :: world where
  "emptyWorld =
     \<lparr>deployments = [], statefulsets = [], pods = [], configmaps = Map.empty, secrets = Map.empty,
      faults = [], requests = [], future = [], generation = 0\<rparr>"

text \<open>A cluster that holds the configuration and credential bundles, and no workload yet.\<close>

definition bundleWorld :: world where
  "bundleWorld =
     emptyWorld\<lparr>configmaps := [(''logging'', ''es'') \<mapsto>
                    [(''log4j2.properties'', ''b''), (''elasticsearch.yml'', ''a''), (''index_settings'', ''c'')]],
                secrets := [(''logging'', ''es'') \<mapsto> [(''key'', ''k''), (''cert'', ''c'')]]\<rparr>"

text \<open>The stored workload of the example node, with a resource version and a revision.\<close>

definition storedDeployment :: "bool \<Rightarrow> PodTemplateSpec \<Rightarrow> Deployment" where
  "storedDeployment paused template =
     (self exampleNode)\<lparr>dplMeta := (dplMeta (self exampleNode))\<lparr>ResourceVersion := ''r'',
                          Annotations := [(''deployment.kubernetes.io/revision'', ''1'')]\<rparr>,
                        dplSpec := (dplSpec (self exampleNode))\<lparr>Paused := paused, Template := template\<rparr>\<rparr>"

definition liveWorld :: "bool \<Rightarrow> PodTemplateSpec \<Rightarrow> Pod list \<Rightarrow> world" where
  "liveWorld paused template ps =
     bundleWorld\<lparr>deployments := [storedDeployment paused template], pods := ps, generation := 1\<rparr>"

definition exampleStatefulSet :: StatefulSet where
  "exampleStatefulSet =
     \<lparr>stsMeta = \<lparr>Name = ''es-master'', Namespace = ''logging'', ResourceVersion = ''r'',
                 Annotations = [], Labels = []\<rparr>,
      stsSpec = \<lparr>stsReplicas = Some 3, stsTemplate = exampleTemplate\<rparr>\<rparr>"

text \<open>A template that differs from the example template by one more toleration.\<close>

definition toleratingTemplate :: PodTemplateSpec where
  "toleratingTemplate =
     exampleTemplate\<lparr>tmplSpec := (tmplSpec exampleTemplate)\<lparr>Tolerations :=
        [Toleration ''node.kubernetes.io/disk-pressure'' ''Exists'' [] ''NoSchedule'']\<rparr>\<rparr>"

text \<open>A template that differs from the example template by its image.\<close>

definition otherImageTemplate :: PodTemplateSpec where
  "otherImageTemplate =
     exampleTemplate\<lparr>tmplSpec := (tmplSpec exampleTemplate)\<lparr>Containers :=
        [exampleContainer\<lparr>cImage := ''elasticsearch6:6.8.0''\<rparr>]\<rparr>\<rparr>"

definition goodPod :: Pod where
  "goodPod = examplePod ''es-cdm-1-new'' (tmplSpec exampleTemplate)"

definition badPod :: Pod where
  "badPod = examplePod ''es-cdm-1-old'' (tmplSpec otherImageTemplate)"

definition toleratingPod :: Pod where
  "toleratingPod = examplePod ''es-cdm-1-tol'' (tmplSpec toleratingTemplate)"

text \<open>A cluster that holds the deployment of the example node and a statefulset.\<close>

definition bothWorld :: world where
  "bothWorld = (liveWorld True exampleTemplate [])\<lparr>statefulsets := [exampleStatefulSet]\<rparr>"


text \<open>The stored workload scaled to zero.\<close>

definition scaledDownWorld :: world where
  "scaledDownWorld =
     bundleWorld\<lparr>deployments := [setReplicasOf 0 (storedDeployment True exampleTemplate)],
                 generation := 1\<rparr>"

text \<open>
  A run of \<open>progressNodeChanges\<close> on a cluster whose stored workload is unpaused, has the
  desired template, and whose pod matches it.
\<close>

definition settledRun :: "world \<times> deploymentNode \<times> error option exec" where
  "settledRun =
     progressNodeChanges exampleCollaborators (liveWorld False exampleTemplate [goodPod]) exampleNode"

text \<open>
  Two runs of \<open>progressNodeChanges\<close> in a row. The stored template carries a toleration
  that the desired template has dropped; the pod was made from the stored template.
\<close>

definition driftWorld :: world where
  "driftWorld = liveWorld True toleratingTemplate [toleratingPod]"

definition firstRun :: "world \<times> deploymentNode \<times> error option exec" where
  "firstRun = progressNodeChanges exampleCollaborators driftWorld exampleNode"

definition secondRun :: "world \<times> deploymentNode \<times> error option exec" where
  "secondRun = progressNodeChanges exampleCollaborators (fst firstRun) (fst (snd firstRun))"

text \<open>
  A rollout that does not come: the stored template and the pod carry another image than
  the desired template. The stages of \<open>progressNodeChanges\<close> on this cluster, up to the wait.
\<close>

definition staleWorld :: world where
  "staleWorld = liveWorld True otherImageTemplate [badPod]"

definition staleChecked :: "world \<times> bool" where
  "staleChecked = isChanged exampleComparators staleWorld exampleNode"

definition staleUpdated :: "world \<times> error option" where
  "staleUpdated = executeUpdate exampleCollaborators (fst staleChecked) exampleNode"

definition staleUnpaused :: "world \<times> deploymentNode \<times> error option" where
  "staleUnpaused = unpause (fst staleUpdated) exampleNode"

definition staleWaited :: "world \<times> error option" where
  "staleWaited = waitForNodeRollout exampleComparators (fst staleUnpaused) (fst (snd staleUnpaused))"

text \<open>
  A cluster whose stored template has another image than the desired one, and whose API
  server fails the next call.
\<close>

definition unreachableWorld :: world where
  "unreachableWorld = (liveWorld True otherImageTemplate [])\<lparr>faults := [Some (ServerError ''etcdserver: request timed out'')]\<rparr>"






text \<open>Two configuration bundles: the second lists the keys the other way round and has other index settings.\<close>

definition bundleA :: gomap where
  "bundleA = [(''elasticsearch.yml'', ''a''), (''index_settings'', ''c'')]"

definition bundleB :: gomap where
  "bundleB = [(''index_settings'', ''d''), (''elasticsearch.yml'', ''a'')]"

text \<open>A cluster that stores one bundle both as the configuration and as the credentials of \<open>es\<close>.\<close>

definition storing :: "gomap \<Rightarrow> world" where
  "storing bundle =
     emptyWorld\<lparr>configmaps := [(''logging'', ''es'') \<mapsto> bundle],
                secrets := [(''logging'', ''es'') \<mapsto> bundle]\<rparr>"

section \<open>Notions used to state the properties\<close>

text \<open>The world after a client call that only reads, and the fault such a call meets.\<close>

definition skipFault :: "world \<Rightarrow> world" where
  "skipFault w = w\<lparr>faults := tl (faults w)\<rparr>"

definition headFault :: "world \<Rightarrow> error option" where
  "headFault w = (case faults w of [] \<Rightarrow> None | f # fs \<Rightarrow> f)"

text \<open>The request log of the second world continues that of the first.\<close>

definition extends :: "world \<Rightarrow> world \<Rightarrow> bool" where
  "extends w w' = (\<exists>rs. requests w' = requests w @ rs)"

text \<open>The live pods of a node group: those of its namespace that carry its \<open>node-name\<close> label.\<close>

definition livePods :: "world \<Rightarrow> deploymentNode \<Rightarrow> Pod list" where
  "livePods w node =
     filter (\<lambda>p. Namespace (podMeta p) = Namespace (dplMeta (self node)) \<and> matchesLabels (podLabels node) p)
       (pods w)"

text \<open>A pod matches the desired template under the difference rule with non-strict tolerations.\<close>

definition podMatches :: "comparators \<Rightarrow> deploymentNode \<Rightarrow> Pod \<Rightarrow> bool" where
  "podMatches C node p = (\<not> podSpecDifferenceRule C (podSpec p) (desiredPodSpec node) False)"

text \<open>What the backend holds for a workload: its spec, paused flag, replica count and template.\<close>

definition storedSpec :: "world \<Rightarrow> ObjectKey \<Rightarrow> DeploymentSpec option" where
  "storedSpec w key = map_option dplSpec (lookupDeployment w key)"

definition storedPaused :: "world \<Rightarrow> ObjectKey \<Rightarrow> bool option" where
  "storedPaused w key = map_option Paused (storedSpec w key)"

definition storedReplicas :: "world \<Rightarrow> ObjectKey \<Rightarrow> int32 option option" where
  "storedReplicas w key = map_option Replicas (storedSpec w key)"

definition storedTemplate :: "world \<Rightarrow> ObjectKey \<Rightarrow> PodTemplateSpec option" where
  "storedTemplate w key = map_option Template (storedSpec w key)"

text \<open>The revision annotation that the backend holds for a workload, if any.\<close>

definition storedRevision :: "world \<Rightarrow> ObjectKey \<Rightarrow> string option" where
  "storedRevision w key =
     (case lookupDeployment w key of
        None \<Rightarrow> None
      | Some d \<Rightarrow> map_of (Annotations (dplMeta d)) ''deployment.kubernetes.io/revision'')"

text \<open>The configuration and credential bundles of a cluster.\<close>

definition bundles :: "world \<Rightarrow> (ObjectKey \<rightharpoonup> gomap) \<times> (ObjectKey \<rightharpoonup> gomap)" where
  "bundles w = (configmaps w, secrets w)"

text \<open>
  Nothing was sent and nothing the operator looks at in a workload has changed: the
  second world differs from the first at most by faults used up, by pods, and by
  annotations.
\<close>

definition quiet :: "world \<Rightarrow> world \<Rightarrow> bool" where
  "quiet w w' =
     (requests w' = requests w \<and> bundles w' = bundles w \<and> map dplKey (deployments w') = map dplKey (deployments w)
      \<and> map dplSpec (deployments w') = map dplSpec (deployments w))"

text \<open>A bundle entry that the configuration fingerprint reads: any but \<open>index_settings\<close>.\<close>

definition nonVolatile :: "string \<times> string \<Rightarrow> bool" where
  "nonVolatile kv = (fst kv \<noteq> ''index_settings'')"

section \<open>The difference rule and the loops of \<open>ArePodSpecDifferent\<close>\<close>

lemma compareContainers_iff:
  "compareContainers C l r changed \<longleftrightarrow> changed \<or> containerMismatch C l r"
  by (auto simp: compareContainers_def containerMismatch_def Let_def)

lemma rContainerLoop_iff:
  "rContainerLoop C l rs (found, changed) =
     (found \<or> list_ex (\<lambda>r. cName r = cName l) rs,
      changed \<or> list_ex (\<lambda>r. cName r = cName l \<and> containerMismatch C l r) rs)"
proof (induction rs arbitrary: found changed)
  case Nil
  show ?case by simp
next
  case (Cons r rs)
  show ?case
    by (cases "cName l = cName r") (auto simp: Cons.IH compareContainers_iff)
qed

lemma lContainerLoop_iff:
  "lContainerLoop C ls rhs changed \<longleftrightarrow>
     changed \<or> list_ex (\<lambda>l. \<not> list_ex (\<lambda>r. cName r = cName l) rhs
                          \<or> list_ex (\<lambda>r. cName r = cName l \<and> containerMismatch C l r) rhs) ls"
proof (induction ls arbitrary: changed)
  case Nil
  show ?case by simp
next
  case (Cons l ls)
  show ?case
    by (auto simp: rContainerLoop_iff Cons.IH)
qed

lemma ArePodSpecDifferent_rule:
  "ArePodSpecDifferent C lhs rhs strict = podSpecDifferenceRule C lhs rhs strict"
  by (simp add: ArePodSpecDifferent_def podSpecDifferenceRule_def lContainerLoop_iff Let_def)

section \<open>Properties of the client, the retry loop and \<open>Update\<close>\<close>

lemma nextFault_eq: "nextFault w = (headFault w, skipFault w)"
  by (cases "faults w") (simp_all add: nextFault_def headFault_def skipFault_def)

lemma skipFault_fields [simp]:
  "deployments (skipFault w) = deployments w"
  "statefulsets (skipFault w) = statefulsets w"
  "pods (skipFault w) = pods w"
  "configmaps (skipFault w) = configmaps w"
  "secrets (skipFault w) = secrets w"
  "requests (skipFault w) = requests w"
  "future (skipFault w) = future w"
  "generation (skipFault w) = generation w"
  "faults (skipFault w) = tl (faults w)"
  by (simp_all add: skipFault_def)

lemma lookupDeployment_skipFault [simp]: "lookupDeployment (skipFault w) key = lookupDeployment w key"
  by (simp add: lookupDeployment_def)

lemma Root_KvWrap_NotFound [simp]: "IsNotFound (Root (KvWrap msg e)) = IsNotFound (Root e)"
  by simp

lemma lookupStatefulSet_skipFault [simp]: "lookupStatefulSet (skipFault w) key = lookupStatefulSet w key"
  by (simp add: lookupStatefulSet_def)

lemma c_GetDeployment_eq:
  "c_GetDeployment w key =
     (skipFault w, case headFault w of Some e \<Rightarrow> Inl e
                   | None \<Rightarrow> (case lookupDeployment w key of None \<Rightarrow> Inl NotFound | Some d \<Rightarrow> Inr d))"
  by (simp add: c_GetDeployment_def nextFault_eq split: option.splits)

lemma c_GetStatefulSet_eq:
  "c_GetStatefulSet w key =
     (skipFault w, case headFault w of Some e \<Rightarrow> Inl e
                   | None \<Rightarrow> (case lookupStatefulSet w key of None \<Rightarrow> Inl NotFound | Some d \<Rightarrow> Inr d))"
  by (simp add: c_GetStatefulSet_def nextFault_eq split: option.splits)

lemma c_ListPods_eq:
  "c_ListPods w namespace selector =
     (skipFault w, case headFault w of Some e \<Rightarrow> Inl e
                   | None \<Rightarrow> Inr (filter (\<lambda>p. Namespace (podMeta p) = namespace \<and> matchesLabels selector p) (pods w)))"
  by (simp add: c_ListPods_def nextFault_eq split: option.splits)

lemma c_UpdateDeployment_requests:
  "requests (fst (c_UpdateDeployment w obj)) = requests w @ [UpdateDeployment obj]"
  by (cases "faults w")
     (auto simp: c_UpdateDeployment_def nextFault_def Let_def split: option.splits)

lemma c_UpdateStatefulSet_requests:
  "requests (fst (c_UpdateStatefulSet w obj)) = requests w @ [UpdateStatefulSet obj]"
  by (cases "faults w")
     (auto simp: c_UpdateStatefulSet_def nextFault_def Let_def split: option.splits)

lemma extends_refl [simp]: "extends w w"
  by (simp add: extends_def)

lemma extends_trans: "extends w w' \<Longrightarrow> extends w' w'' \<Longrightarrow> extends w w''"
  by (auto simp: extends_def)

lemma extends_same:
  assumes "extends w w'" and "extends w' w''" and same: "requests w'' = requests w"
  shows "requests w' = requests w"
proof -
  from assms(1) obtain rs where rs: "requests w' = requests w @ rs"
    by (auto simp: extends_def)
  from assms(2) obtain rs' where rs': "requests w'' = requests w' @ rs'"
    by (auto simp: extends_def)
  have "length (requests w'') = length (requests w) + length rs + length rs'"
    by (simp add: rs rs')
  with same have "rs = []" by simp
  with rs show ?thesis by simp
qed

lemma retryLoop_frame:
  assumes step: "\<And>w. extends w (fst (fn w))
                    \<and> (requests (fst (fn w)) = requests w \<longrightarrow> st (fst (fn w)) = st w \<and> snd (fn w) \<noteq> None)"
  shows "extends w (fst (retryLoop k fn w lastErr))
         \<and> (requests (fst (retryLoop k fn w lastErr)) = requests w \<longrightarrow>
              st (fst (retryLoop k fn w lastErr)) = st w
              \<and> (snd (retryLoop k fn w lastErr) = None \<longrightarrow> lastErr = None \<and> k = 0))"
proof (induction k arbitrary: w lastErr)
  case 0
  show ?case by simp
next
  case (Suc k)
  obtain w' r where fn: "fn w = (w', r)" by (cases "fn w")
  from step[of w] fn have ext: "extends w w'"
    and same: "requests w' = requests w \<Longrightarrow> st w' = st w \<and> r \<noteq> None"
    by auto
  show ?case
  proof (cases r)
    case None
    with fn ext same show ?thesis by auto
  next
    case (Some err)
    show ?thesis
    proof (cases "IsConflict err")
      case False
      with Some fn ext same show ?thesis by auto
    next
      case True
      let ?r = "retryLoop k fn w' (Some err)"
      from Suc.IH[of w' "Some err"] have ext': "extends w' (fst ?r)"
        and same': "requests (fst ?r) = requests w' \<Longrightarrow> st (fst ?r) = st w' \<and> snd ?r \<noteq> None"
        by auto
      have eq: "retryLoop (Suc k) fn w lastErr = ?r"
        using fn Some True by simp
      have "extends w (fst ?r)" using ext ext' by (rule extends_trans)
      moreover have "requests (fst ?r) = requests w \<longrightarrow> st (fst ?r) = st w \<and> snd ?r \<noteq> None"
      proof
        assume a: "requests (fst ?r) = requests w"
        have b: "requests w' = requests w" using ext ext' a by (rule extends_same)
        with a same' same show "st (fst ?r) = st w \<and> snd ?r \<noteq> None" by simp
      qed
      ultimately show ?thesis unfolding eq by simp
    qed
  qed
qed

lemma deployment_updateAttempt_frame:
  "extends w (fst (deployment_updateAttempt key dpl mutate w))
   \<and> (requests (fst (deployment_updateAttempt key dpl mutate w)) = requests w \<longrightarrow>
        deployments (fst (deployment_updateAttempt key dpl mutate w)) = deployments w
        \<and> snd (deployment_updateAttempt key dpl mutate w) \<noteq> None)"
  by (auto simp: deployment_updateAttempt_def c_GetDeployment_eq extends_def c_UpdateDeployment_requests
      split: option.splits)

lemma statefulset_updateAttempt_frame:
  "extends w (fst (statefulset_updateAttempt key sts mutate w))
   \<and> (requests (fst (statefulset_updateAttempt key sts mutate w)) = requests w \<longrightarrow>
        statefulsets (fst (statefulset_updateAttempt key sts mutate w)) = statefulsets w
        \<and> snd (statefulset_updateAttempt key sts mutate w) \<noteq> None)"
  by (auto simp: statefulset_updateAttempt_def c_GetStatefulSet_eq extends_def c_UpdateStatefulSet_requests
      split: option.splits)

lemma deployment_Update_frame:
  "requests (fst (deployment_Update w dpl cmp mutate)) = requests w \<Longrightarrow>
     fst (snd (deployment_Update w dpl cmp mutate)) = OperationResultNone
     \<and> deployments (fst (deployment_Update w dpl cmp mutate)) = deployments w"
  using retryLoop_frame[of "deployment_updateAttempt (dplKey dpl) dpl mutate" deployments
      "skipFault w" DefaultRetrySteps None, OF deployment_updateAttempt_frame]
  by (auto simp: deployment_Update_def c_GetDeployment_eq RetryOnConflict_def DefaultRetrySteps_def
      split: option.splits prod.splits if_splits)


lemma statefulset_Update_frame:
  "requests (fst (statefulset_Update w sts cmp mutate)) = requests w \<Longrightarrow>
     fst (snd (statefulset_Update w sts cmp mutate)) = OperationResultNone
     \<and> statefulsets (fst (statefulset_Update w sts cmp mutate)) = statefulsets w"
  using retryLoop_frame[of "statefulset_updateAttempt (stsKey sts) sts mutate" statefulsets
      "skipFault w" DefaultRetrySteps None, OF statefulset_updateAttempt_frame]
  by (auto simp: statefulset_Update_def c_GetStatefulSet_eq RetryOnConflict_def DefaultRetrySteps_def
      split: option.splits prod.splits if_splits)

lemma retryLoop_first:
  assumes step: "\<And>w. extends w (fst (fn w))"
  shows "extends (fst (fn w)) (fst (retryLoop (Suc k) fn w lastErr))"
proof -
  have loop: "extends v (fst (retryLoop j fn v e))" for j v e
  proof (induction j arbitrary: v e)
    case 0
    show ?case by simp
  next
    case (Suc j)
    obtain v' r where fn: "fn v = (v', r)" by (cases "fn v")
    from step[of v] fn have "extends v v'" by simp
    with Suc.IH[of v'] fn show ?case
      by (cases r) (auto intro: extends_trans)
  qed
  obtain w' r where fn: "fn w = (w', r)" by (cases "fn w")
  with loop[of w' k] show ?thesis
    by (cases r) auto
qed

lemma no_fault_twice:
  assumes "list_all (\<lambda>f. f = None) (take 2 (faults w))"
  shows "headFault w = None" and "headFault (skipFault w) = None"
proof -
  show "headFault w = None"
    using assms by (cases "faults w") (simp_all add: headFault_def numeral_2_eq_2)
  show "headFault (skipFault w) = None"
  proof (cases "faults w")
    case Nil
    then show ?thesis by (simp add: headFault_def)
  next
    case (Cons f fs)
    with assms show ?thesis
      by (cases fs) (simp_all add: headFault_def numeral_2_eq_2)
  qed
qed

lemma deployment_Update_gate:
  assumes nofault: "list_all (\<lambda>f. f = None) (take 2 (faults w))"
    and cur: "lookupDeployment w (dplKey dpl) = Some current"
  shows "if cmp current dpl
         then requests (fst (deployment_Update w dpl cmp mutate)) = requests w
         else (\<exists>rs. requests (fst (deployment_Update w dpl cmp mutate)) =
                      requests w @ UpdateDeployment (mutate current dpl) # rs)"
proof (cases "cmp current dpl")
  case True
  with cur no_fault_twice(1)[OF nofault] show ?thesis
    by (simp add: deployment_Update_def c_GetDeployment_eq)
next
  case False
  let ?fn = "deployment_updateAttempt (dplKey dpl) dpl mutate"
  let ?w1 = "skipFault w"
  have first: "requests (fst (?fn ?w1)) = requests w @ [UpdateDeployment (mutate current dpl)]"
    using cur no_fault_twice(2)[OF nofault]
    by (simp add: deployment_updateAttempt_def c_GetDeployment_eq c_UpdateDeployment_requests)
  have "extends (fst (?fn ?w1)) (fst (retryLoop (Suc 4) ?fn ?w1 None))"
    by (rule retryLoop_first) (simp add: deployment_updateAttempt_frame)
  then obtain rs where
    "requests (fst (retryLoop (Suc 4) ?fn ?w1 None)) = requests w @ UpdateDeployment (mutate current dpl) # rs"
    using first by (auto simp: extends_def)
  moreover have "fst (deployment_Update w dpl cmp mutate) = fst (retryLoop (Suc 4) ?fn ?w1 None)"
    using False cur no_fault_twice(1)[OF nofault]
    by (simp add: deployment_Update_def c_GetDeployment_eq RetryOnConflict_def DefaultRetrySteps_def
        split: prod.splits option.splits)
  ultimately show ?thesis using False by auto
qed

lemma statefulset_Update_gate:
  assumes nofault: "list_all (\<lambda>f. f = None) (take 2 (faults w))"
    and cur: "lookupStatefulSet w (stsKey sts) = Some current"
  shows "if cmp current sts
         then (\<exists>rs. requests (fst (statefulset_Update w sts cmp mutate)) =
                      requests w @ UpdateStatefulSet (mutate current sts) # rs)
         else requests (fst (statefulset_Update w sts cmp mutate)) = requests w"
proof (cases "cmp current sts")
  case False
  with cur no_fault_twice(1)[OF nofault] show ?thesis
    by (simp add: statefulset_Update_def c_GetStatefulSet_eq)
next
  case True
  let ?fn = "statefulset_updateAttempt (stsKey sts) sts mutate"
  let ?w1 = "skipFault w"
  have first: "requests (fst (?fn ?w1)) = requests w @ [UpdateStatefulSet (mutate current sts)]"
    using cur no_fault_twice(2)[OF nofault]
    by (simp add: statefulset_updateAttempt_def c_GetStatefulSet_eq c_UpdateStatefulSet_requests)
  have "extends (fst (?fn ?w1)) (fst (retryLoop (Suc 4) ?fn ?w1 None))"
    by (rule retryLoop_first) (simp add: statefulset_updateAttempt_frame)
  then obtain rs where
    "requests (fst (retryLoop (Suc 4) ?fn ?w1 None)) = requests w @ UpdateStatefulSet (mutate current sts) # rs"
    using first by (auto simp: extends_def)
  moreover have "fst (statefulset_Update w sts cmp mutate) = fst (retryLoop (Suc 4) ?fn ?w1 None)"
    using True cur no_fault_twice(1)[OF nofault]
    by (simp add: statefulset_Update_def c_GetStatefulSet_eq RetryOnConflict_def DefaultRetrySteps_def
        split: prod.splits option.splits)
  ultimately show ?thesis using True by auto
qed

section \<open>The rollout poll\<close>

lemma podLoop_iff:
  "podLoop C desired ps \<longleftrightarrow> list_ex (\<lambda>p. \<not> podSpecDifferenceRule C (podSpec p) desired False) ps"
  by (induction ps) (simp_all add: ArePodSpecDifferent_rule)

lemma checkPodSpecMatches_eq:
  "checkPodSpecMatches C w node (podLabels node) =
     (skipFault w, headFault w = None \<and> list_ex (podMatches C node) (livePods w node))"
  by (cases "headFault w")
     (simp_all add: checkPodSpecMatches_def pod_List_def c_ListPods_eq podLoop_iff livePods_def
        podMatches_def [abs_def])

lemma livePods_skipFault [simp]: "livePods (skipFault w) node = livePods w node"
  by (simp add: livePods_def)

lemma pollLoop_Suc:
  "condition (tick w) = (w', done, e) \<Longrightarrow>
     pollLoop (Suc k) condition w =
       (case e of Some err \<Rightarrow> (w', Some err)
        | None \<Rightarrow> if done then (w', None) else pollLoop k condition w')"
  by (cases e; cases "done") simp_all

lemma rolloutCondition_eq:
  "rolloutCondition C node w =
     (skipFault w, headFault w = None \<and> list_ex (podMatches C node) (livePods w node), None)"
  by (simp add: rolloutCondition_def checkPodSpecMatches_eq)

lemma pollLoop_rollout:
  "pollLoop k (rolloutCondition C node) w = (w', None) \<Longrightarrow> list_ex (podMatches C node) (livePods w' node)"
proof (induction k arbitrary: w)
  case 0
  then show ?case by simp
next
  case (Suc k)
  let ?done = "headFault (tick w) = None \<and> list_ex (podMatches C node) (livePods (tick w) node)"
  have step: "pollLoop (Suc k) (rolloutCondition C node) w =
                (if ?done then (skipFault (tick w), None)
                 else pollLoop k (rolloutCondition C node) (skipFault (tick w)))"
    by (subst pollLoop_Suc[OF rolloutCondition_eq]) simp
  show ?case
  proof (cases ?done)
    case True
    with Suc.prems step have "w' = skipFault (tick w)" by simp
    with True show ?thesis by simp
  next
    case False
    with Suc.prems step have "pollLoop k (rolloutCondition C node) (skipFault (tick w)) = (w', None)"
      by simp
    then show ?thesis by (rule Suc.IH)
  qed
qed

section \<open>What a successful update stores\<close>

lemma bundles_skipFault [simp]: "bundles (skipFault w) = bundles w"
  by (simp add: bundles_def)

lemma storedSpec_skipFault [simp]: "storedSpec (skipFault w) key = storedSpec w key"
  by (simp add: storedSpec_def)

lemma find_key_map:
  assumes "\<And>d. dplKey (f d) = dplKey d"
  shows "find (\<lambda>d. dplKey d = k) (map f ds) = map_option f (find (\<lambda>d. dplKey d = k) ds)"
  by (induction ds) (simp_all add: assms)

lemma find_replace:
  assumes "find (\<lambda>d. dplKey d = k) ds = Some d0" and "dplKey stored = k"
  shows "find (\<lambda>d. dplKey d = k) (map (\<lambda>d. if dplKey d = k then stored else d) ds) = Some stored"
  using assms by (induction ds) (auto split: if_splits)

lemma dplKey_stamp [simp]:
  "dplKey (obj\<lparr>dplMeta := (dplMeta obj)\<lparr>ResourceVersion := v\<rparr>\<rparr>) = dplKey obj"
  by (simp add: dplKey_def)

lemma c_UpdateDeployment_cases:
  assumes "c_UpdateDeployment w obj = (w', e)"
  shows "requests w' = requests w @ [UpdateDeployment obj]"
    and "bundles w' = bundles w"
    and "e \<noteq> None \<Longrightarrow> deployments w' = deployments w"
    and "e = None \<Longrightarrow> storedSpec w' (dplKey obj) = Some (dplSpec obj)"
proof -
  let ?w0 = "w\<lparr>requests := requests w @ [UpdateDeployment obj]\<rparr>"
  have nf: "nextFault ?w0 = (headFault w, skipFault ?w0)"
    by (simp add: nextFault_eq headFault_def)
  show "requests w' = requests w @ [UpdateDeployment obj]"
    using assms c_UpdateDeployment_requests[of w obj] by simp
  show "bundles w' = bundles w"
    using assms
    by (auto simp: c_UpdateDeployment_def nf bundles_def skipFault_def Let_def split: option.splits)
  show "e \<noteq> None \<Longrightarrow> deployments w' = deployments w"
    using assms
    by (auto simp: c_UpdateDeployment_def nf skipFault_def Let_def split: option.splits)
  show "e = None \<Longrightarrow> storedSpec w' (dplKey obj) = Some (dplSpec obj)"
    using assms
    by (auto simp: c_UpdateDeployment_def nf skipFault_def Let_def storedSpec_def lookupDeployment_def
        find_replace split: option.splits)
qed


lemma lookupDeployment_key: "lookupDeployment w key = Some d \<Longrightarrow> dplKey d = key"
  by (auto simp: lookupDeployment_def find_Some_iff)


lemma lookupDeployment_deployments: "deployments w' = deployments w \<Longrightarrow> lookupDeployment w' key = lookupDeployment w key"
  by (simp add: lookupDeployment_def)

lemma deployment_updateAttempt_cases:
  assumes run: "deployment_updateAttempt key dpl mutate w = (w', e)"
    and kp: "\<And>c. dplKey (mutate c dpl) = dplKey c"
  shows "bundles w' = bundles w"
    and "e \<noteq> None \<Longrightarrow> deployments w' = deployments w"
    and "e = None \<Longrightarrow> \<exists>cur. lookupDeployment w key = Some cur
                          \<and> storedSpec w' key = Some (dplSpec (mutate cur dpl))"
proof -
  show "bundles w' = bundles w"
    using run
    by (auto simp: deployment_updateAttempt_def c_GetDeployment_eq
        split: option.splits dest: c_UpdateDeployment_cases(2))
  show "e \<noteq> None \<Longrightarrow> deployments w' = deployments w"
    using run
    by (auto simp: deployment_updateAttempt_def c_GetDeployment_eq
        split: option.splits dest: c_UpdateDeployment_cases(3))
  show "e = None \<Longrightarrow> \<exists>cur. lookupDeployment w key = Some cur
                          \<and> storedSpec w' key = Some (dplSpec (mutate cur dpl))"
  proof -
    assume ok: "e = None"
    with run obtain cur where cur: "lookupDeployment w key = Some cur"
      and upd: "c_UpdateDeployment (skipFault w) (mutate cur dpl) = (w', None)"
      by (auto simp: deployment_updateAttempt_def c_GetDeployment_eq split: option.splits)
    from cur have "dplKey (mutate cur dpl) = key"
      by (simp add: kp lookupDeployment_key)
    with c_UpdateDeployment_cases(4)[OF upd] cur show ?thesis by auto
  qed
qed

lemma retryLoop_update_cases:
  assumes run: "retryLoop k (deployment_updateAttempt key dpl mutate) w lastErr = (w', e)"
    and kp: "\<And>c. dplKey (mutate c dpl) = dplKey c"
  shows "bundles w' = bundles w
       \<and> (e \<noteq> None \<longrightarrow> deployments w' = deployments w)
       \<and> (e = None \<longrightarrow> (k = 0 \<and> lastErr = None \<and> w' = w)
             \<or> (\<exists>cur. lookupDeployment w key = Some cur
                    \<and> storedSpec w' key = Some (dplSpec (mutate cur dpl))))"
  using run
proof (induction k arbitrary: w lastErr)
  case 0
  then show ?case by auto
next
  case (Suc k)
  let ?fn = "deployment_updateAttempt key dpl mutate"
  obtain w1 r where fn: "?fn w = (w1, r)" by (cases "?fn w")
  note att = deployment_updateAttempt_cases[OF fn kp]
  show ?case
  proof (cases r)
    case None
    with Suc.prems fn have "w' = w1" "e = None" by auto
    with att None show ?thesis by auto
  next
    case (Some err)
    show ?thesis
    proof (cases "IsConflict err")
      case False
      with Suc.prems fn Some have "w' = w1" "e = Some err" by auto
      with att Some show ?thesis by auto
    next
      case True
      with Suc.prems fn Some have rest: "retryLoop k ?fn w1 (Some err) = (w', e)" by simp
      from att(2) Some have same: "deployments w1 = deployments w" by simp
      then have "lookupDeployment w1 key = lookupDeployment w key"
        by (rule lookupDeployment_deployments)
      with Suc.IH[OF rest] att(1) same show ?thesis
        by auto
    qed
  qed
qed

lemma deployment_Update_eq:
  "deployment_Update w dpl cmp mutate =
     (case headFault w of
        Some err \<Rightarrow> (skipFault w, OperationResultNone, Some (KvWrap ''failed to get deployment'' err))
      | None \<Rightarrow>
          (case lookupDeployment w (dplKey dpl) of
             None \<Rightarrow> (skipFault w, OperationResultNone, Some (KvWrap ''failed to get deployment'' NotFound))
           | Some current \<Rightarrow>
               (if cmp current dpl then (skipFault w, OperationResultNone, None)
                else (case retryLoop 5 (deployment_updateAttempt (dplKey dpl) dpl mutate) (skipFault w) None of
                        (w2, Some err) \<Rightarrow> (w2, OperationResultNone, Some (KvWrap ''failed to update deployment'' err))
                      | (w2, None) \<Rightarrow> (w2, OperationResultUpdated, None)))))"
  by (simp add: deployment_Update_def c_GetDeployment_eq RetryOnConflict_def DefaultRetrySteps_def
      split: option.splits)

lemma deployment_Update_cases:
  assumes run: "deployment_Update w dpl cmp mutate = (w', res, e)"
    and kp: "\<And>c. dplKey (mutate c dpl) = dplKey c"
  shows "bundles w' = bundles w"
    and "e \<noteq> None \<Longrightarrow> deployments w' = deployments w"
    and "e = None \<Longrightarrow>
           \<exists>cur. lookupDeployment w (dplKey dpl) = Some cur
              \<and> (if cmp cur dpl then deployments w' = deployments w \<and> requests w' = requests w
                  else storedSpec w' (dplKey dpl) = Some (dplSpec (mutate cur dpl)))"
proof -
  let ?fn = "deployment_updateAttempt (dplKey dpl) dpl mutate"
  let ?goal = "bundles w' = bundles w
     \<and> (e \<noteq> None \<longrightarrow> deployments w' = deployments w)
     \<and> (e = None \<longrightarrow>
           (\<exists>cur. lookupDeployment w (dplKey dpl) = Some cur
              \<and> (if cmp cur dpl then deployments w' = deployments w \<and> requests w' = requests w
                  else storedSpec w' (dplKey dpl) = Some (dplSpec (mutate cur dpl)))))"
  have ?goal
  proof (cases "headFault w")
    case (Some err)
    with run show ?thesis by (auto simp: deployment_Update_eq)
  next
    case None
    show ?thesis
    proof (cases "lookupDeployment w (dplKey dpl)")
      case absent: None
      with None run show ?thesis by (auto simp: deployment_Update_eq)
    next
      case (Some cur)
      show ?thesis
      proof (cases "cmp cur dpl")
        case True
        with None Some run show ?thesis by (auto simp: deployment_Update_eq)
      next
        case False
        obtain w2 r where loop: "retryLoop 5 ?fn (skipFault w) None = (w2, r)"
          by (cases "retryLoop 5 ?fn (skipFault w) None")
        from retryLoop_update_cases[OF loop kp]
        have rl: "bundles w2 = bundles w" "r \<noteq> None \<longrightarrow> deployments w2 = deployments w"
          "r = None \<longrightarrow> storedSpec w2 (dplKey dpl) = Some (dplSpec (mutate cur dpl))"
          using Some by simp_all
        from run None Some False loop have "w' = w2" and "(e = None) = (r = None)"
          by (auto simp: deployment_Update_eq split: option.splits)
        with rl Some False show ?thesis by simp
      qed
    qed
  qed
  then show "bundles w' = bundles w"
    and "e \<noteq> None \<Longrightarrow> deployments w' = deployments w"
    and "e = None \<Longrightarrow>
           \<exists>cur. lookupDeployment w (dplKey dpl) = Some cur
              \<and> (if cmp cur dpl then deployments w' = deployments w \<and> requests w' = requests w
                  else storedSpec w' (dplKey dpl) = Some (dplSpec (mutate cur dpl)))"
    by simp_all
qed

lemma dplKey_setPausedOf [simp]: "dplKey (setPausedOf p c) = dplKey c"
  by (simp add: setPausedOf_def dplKey_def)

lemma setPaused_cases:
  assumes run: "setPaused w node p = (w', node', e)"
  shows "bundles w' = bundles w"
    and "e \<noteq> None \<Longrightarrow> node' = node \<and> deployments w' = deployments w"
    and "e = None \<Longrightarrow> node' = node\<lparr>self := setPausedOf p (self node)\<rparr>
           \<and> (\<exists>cur. lookupDeployment w (dplKey (self node)) = Some cur
                  \<and> storedSpec w' (dplKey (self node)) = Some ((dplSpec cur)\<lparr>Paused := p\<rparr>))"
proof -
  let ?cmp = "\<lambda>(_::Deployment) (_::Deployment). False"
  let ?mutate = "\<lambda>current (_::Deployment). setPausedOf p current"
  obtain w1 res r where upd: "deployment_Update w (self node) ?cmp ?mutate = (w1, res, r)"
    by (cases "deployment_Update w (self node) ?cmp ?mutate") auto
  have kp: "\<And>c. dplKey (?mutate c (self node)) = dplKey c"
    by simp
  note u = deployment_Update_cases[OF upd kp]
  have w1: "w' = w1" and e: "(e = None) = (r = None)"
    and n: "node' = (if r = None then node\<lparr>self := setPausedOf p (self node)\<rparr> else node)"
    using run upd by (auto simp: setPaused_def split: option.splits)
  show "bundles w' = bundles w"
    using u(1) w1 by simp
  show "e \<noteq> None \<Longrightarrow> node' = node \<and> deployments w' = deployments w"
    using u(2) w1 e n by auto
  show "e = None \<Longrightarrow> node' = node\<lparr>self := setPausedOf p (self node)\<rparr>
           \<and> (\<exists>cur. lookupDeployment w (dplKey (self node)) = Some cur
                  \<and> storedSpec w' (dplKey (self node)) = Some ((dplSpec cur)\<lparr>Paused := p\<rparr>))"
  proof -
    assume "e = None"
    with e have r: "r = None" by simp
    from u(3)[OF r] obtain cur where "lookupDeployment w (dplKey (self node)) = Some cur"
      and "storedSpec w1 (dplKey (self node)) = Some (dplSpec (setPausedOf p cur))"
      by auto
    then show ?thesis using n r w1 by (auto simp: setPausedOf_def)
  qed
qed

section \<open>Calls that only read, and the time between polls\<close>

lemma quiet_refl [simp]: "quiet w w"
  by (simp add: quiet_def)

lemma quiet_trans: "quiet w w' \<Longrightarrow> quiet w' w'' \<Longrightarrow> quiet w w''"
  by (simp add: quiet_def)

lemma quiet_skipFault [simp]: "quiet w (skipFault w)"
  by (simp add: quiet_def)

lemma dplKey_assignRevision [simp]: "dplKey (assignRevision key revision d) = dplKey d"
  by (simp add: assignRevision_def dplKey_def)

lemma dplSpec_assignRevision [simp]: "dplSpec (assignRevision key revision d) = dplSpec d"
  by (simp add: assignRevision_def)

lemma quiet_applyEvent: "quiet w (applyEvent ev w)"
  by (cases ev) (simp_all add: quiet_def bundles_def comp_def)

lemma quiet_tick [simp]: "quiet w (tick w)"
proof (cases "future w")
  case Nil
  then show ?thesis by (simp add: tick_def)
next
  case (Cons ev evs)
  have "quiet w (w\<lparr>future := evs\<rparr>)"
    by (simp add: quiet_def bundles_def)
  moreover have "quiet (w\<lparr>future := evs\<rparr>) (applyEvent ev (w\<lparr>future := evs\<rparr>))"
    by (rule quiet_applyEvent)
  ultimately have "quiet w (applyEvent ev (w\<lparr>future := evs\<rparr>))"
    by (rule quiet_trans)
  then show ?thesis
    using Cons by (simp add: tick_def)
qed

lemma find_same_keys:
  assumes keys: "map dplKey ds' = map dplKey ds" and specs: "map dplSpec ds' = map dplSpec ds"
  shows "map_option dplSpec (find (\<lambda>d. dplKey d = key) ds') = map_option dplSpec (find (\<lambda>d. dplKey d = key) ds)"
proof -
  have "length ds' = length ds"
    using keys by (rule map_eq_imp_length_eq)
  then show ?thesis
    using keys specs
  proof (induction ds' ds rule: list_induct2)
    case Nil
    show ?case by simp
  next
    case (Cons d' ds' d ds)
    from Cons.prems have head: "dplKey d' = dplKey d" "dplSpec d' = dplSpec d"
      and tail: "map dplKey ds' = map dplKey ds" "map dplSpec ds' = map dplSpec ds"
      by simp_all
    from Cons.IH[OF tail] head show ?case by simp
  qed
qed

lemma quiet_storedSpec: "quiet w w' \<Longrightarrow> storedSpec w' key = storedSpec w key"
  unfolding storedSpec_def lookupDeployment_def
  by (rule find_same_keys) (simp_all add: quiet_def)

lemma pollLoop_quiet:
  assumes reads: "\<And>v. quiet v (fst (condition v))"
  shows "quiet w (fst (pollLoop k condition w))"
proof (induction k arbitrary: w)
  case 0
  show ?case by simp
next
  case (Suc k)
  obtain w1 d e where c: "condition (tick w) = (w1, d, e)"
    by (cases "condition (tick w)") auto
  from reads[of "tick w"] c have "quiet (tick w) w1" by simp
  then have q: "quiet w w1" using quiet_tick quiet_trans by blast
  show ?case
  proof (cases "e = None \<and> \<not> d")
    case True
    then have "pollLoop (Suc k) condition w = pollLoop k condition w1"
      by (subst pollLoop_Suc[of condition w w1 d e, OF c]) simp
    with quiet_trans[OF q Suc.IH[of w1]] show ?thesis by simp
  next
    case False
    then have "fst (pollLoop (Suc k) condition w) = w1"
      by (subst pollLoop_Suc[of condition w w1 d e, OF c]) (cases e, simp_all)
    with q show ?thesis by simp
  qed
qed

lemma pollLoop_rollout_error:
  "snd (pollLoop k (rolloutCondition C node) w) = None
   \<or> snd (pollLoop k (rolloutCondition C node) w) = Some ErrWaitTimeout"
proof (induction k arbitrary: w)
  case 0
  show ?case by simp
next
  case (Suc k)
  show ?case
    by (subst pollLoop_Suc[OF rolloutCondition_eq], subst pollLoop_Suc[OF rolloutCondition_eq])
       (simp add: Suc.IH)
qed

lemma waitForNodeRollout_cases:
  assumes "waitForNodeRollout C w node = (w', e)"
  shows "quiet w w'" and "e = None \<or> e = Some ErrWaitTimeout"
proof -
  have "quiet w (fst (pollLoop 31 (rolloutCondition C node) w))"
    by (rule pollLoop_quiet) (simp add: rolloutCondition_eq)
  with assms show "quiet w w'"
    by (simp add: waitForNodeRollout_def wait_Poll_def)
  from pollLoop_rollout_error[of 31 C node w] assms show "e = None \<or> e = Some ErrWaitTimeout"
    by (simp add: waitForNodeRollout_def wait_Poll_def)
qed

lemma isChanged_fst [simp]: "fst (isChanged C w node) = skipFault w"
  by (simp add: isChanged_def deployment_Get_def c_GetDeployment_eq split: option.splits)

lemma podSpecMatches_fst [simp]: "fst (podSpecMatches C w node) = skipFault w"
  by (simp add: podSpecMatches_def checkPodSpecMatches_eq)

lemma getSecretDataHash_fst [simp]: "fst (getSecretDataHash sum256 w n ns) = skipFault w"
  by (simp add: getSecretDataHash_def secret_Get_def c_GetSecret_def nextFault_eq split: option.splits)

lemma getConfigmapDataHash_fst [simp]: "fst (getConfigmapDataHash sum256 w n ns) = skipFault w"
  by (simp add: getConfigmapDataHash_def configmap_Get_def c_GetConfigMap_def nextFault_eq split: option.splits)

lemma refreshHashes_cases:
  assumes run: "refreshHashes D w node = (w', Returned node')"
  shows "quiet w w'" and "self node' = self node" and "replicas node' = replicas node"
proof -
  let ?c = "getConfigmapDataHash (Sum256 D) w (clusterName node) (Namespace (dplMeta (self node)))"
  have c1: "fst ?c = skipFault w" by simp
  have "w' = skipFault (skipFault w) \<and> self node' = self node \<and> replicas node' = replicas node"
  proof (cases "snd ?c")
    case NilPointerPanic
    with c1 have "?c = (skipFault w, NilPointerPanic)" by (simp add: prod_eq_iff)
    with run show ?thesis by (simp add: refreshHashes_def)
  next
    case (Returned h)
    with c1 have c2: "?c = (skipFault w, Returned h)" by (simp add: prod_eq_iff)
    define node1 where "node1 = (if h \<noteq> configmapHash node then node\<lparr>configmapHash := h\<rparr> else node)"
    let ?s = "getSecretDataHash (Sum256 D) (skipFault w) (clusterName node1) (Namespace (dplMeta (self node1)))"
    obtain sh where s2: "?s = (skipFault (skipFault w), sh)"
      by (cases ?s) (metis fst_conv getSecretDataHash_fst)
    have "refreshHashes D w node =
            (skipFault (skipFault w),
             Returned (if sh \<noteq> secretHash node1 then node1\<lparr>secretHash := sh\<rparr> else node1))"
      unfolding refreshHashes_def c2 using s2 by (simp add: Let_def node1_def)
    with run show ?thesis by (auto simp: node1_def)
  qed
  then show "quiet w w'" and "self node' = self node" and "replicas node' = replicas node"
    by (simp_all add: quiet_def)
qed

section \<open>The paths of \<open>progressNodeChanges\<close>\<close>

lemma progress_success_elim:
  assumes "progressNodeChanges D w node = (w', node', Returned None)"
  shows "(\<not> snd (isChanged (comparing D) w node)
          \<and> snd (podSpecMatches (comparing D) (fst (isChanged (comparing D) w node)) node)
          \<and> w' = skipFault (skipFault w) \<and> node' = node)
       \<or> ((snd (isChanged (comparing D) w node)
            \<or> \<not> snd (podSpecMatches (comparing D) (fst (isChanged (comparing D) w node)) node))
           \<and> (\<exists>w2 w3 w4 node4 w5 w6 node6.
                 executeUpdate D w2 node = (w3, None)
                 \<and> unpause w3 node = (w4, node4, None)
                 \<and> waitForNodeRollout (comparing D) w4 node4 = (w5, None)
                 \<and> pause w5 node4 = (w6, node6, None)
                 \<and> refreshHashes D w6 node6 = (w', Returned node')))"
proof -
  let ?C = "comparing D"
  obtain changed where ic: "isChanged ?C w node = (skipFault w, changed)"
    by (cases "isChanged ?C w node") (metis fst_conv isChanged_fst)
  obtain matches where pm: "podSpecMatches ?C (skipFault w) node = (skipFault (skipFault w), matches)"
    by (cases "podSpecMatches ?C (skipFault w) node") (metis fst_conv podSpecMatches_fst)
  show ?thesis
  proof (cases "\<not> changed \<and> matches")
    case True
    with assms ic pm show ?thesis
      by (simp add: progressNodeChanges_def)
  next
    case False
    with assms ic pm show ?thesis
      by (simp add: progressNodeChanges_def split: prod.splits option.splits exec.splits if_splits)
         blast+
  qed
qed


lemma storedPaused_storedSpec: "storedSpec w key = Some sp \<Longrightarrow> storedPaused w key = Some (Paused sp)"
  by (simp add: storedPaused_def)

section \<open>The steps of \<open>create\<close>\<close>




lemma initialRolloutCondition_fst [simp]: "fst (initialRolloutCondition node w) = skipFault w"
  by (simp add: initialRolloutCondition_def deployment_Get_def c_GetDeployment_eq split: option.splits)





lemma getSecretDataHash_cases:
  assumes "getSecretDataHash sum256 w n ns = (w', h)"
  shows "w' = skipFault w"
    and "(\<exists>sec. secrets w (ns, n) = Some sec \<and> h = secretDataDigest sum256 sec) \<or> h = []"
  using assms
  by (auto simp: getSecretDataHash_def secret_Get_def c_GetSecret_def nextFault_eq
      split: option.splits)


lemma extends_skipFault [simp]: "extends w (skipFault w)"
  by (simp add: extends_def)




lemma storedRevision_skipFault [simp]: "storedRevision (skipFault w) key = storedRevision w key"
  by (simp add: storedRevision_def)





section \<open>The digest of a bundle\<close>

lemma hashes_fold_keys:
  "fst ` set (fold (\<lambda>kv dataHashes. AList.update (fst kv) (s (snd kv)) dataHashes) xs acc)
     = fst ` set xs \<union> fst ` set acc"
  by (induction xs arbitrary: acc) (auto simp: dom_update)

lemma hashes_fold_distinct:
  "distinct (map fst acc) \<Longrightarrow>
     distinct (map fst (fold (\<lambda>kv dataHashes. AList.update (fst kv) (s (snd kv)) dataHashes) xs acc))"
  by (induction xs arbitrary: acc) (simp_all add: distinct_update)

lemma hashes_fold_map_of:
  "distinct (map fst xs) \<Longrightarrow>
     map_of (fold (\<lambda>kv dataHashes. AList.update (fst kv) (s (snd kv)) dataHashes) xs acc) k
       = (case map_of xs k of Some v \<Rightarrow> Some (s v) | None \<Rightarrow> map_of acc k)"
proof (induction xs arbitrary: acc)
  case Nil
  show ?case by simp
next
  case (Cons x xs)
  obtain kx vx where x: "x = (kx, vx)" by (cases x)
  from Cons.prems x have fresh: "map_of xs kx = None" and d: "distinct (map fst xs)"
    by (auto simp: map_of_eq_None_iff)
  show ?case
    using fresh by (auto simp: x Cons.IH[OF d] update_conv' split: option.splits)
qed

lemma secretDataHashes_props:
  assumes "distinct (map fst xs)"
  shows "distinct (map fst (secretDataHashes s xs))"
    and "set (map fst (secretDataHashes s xs)) = set (map fst xs)"
    and "map_of (secretDataHashes s xs) k = map_option s (map_of xs k)"
proof -
  show "distinct (map fst (secretDataHashes s xs))"
    unfolding secretDataHashes_def by (rule hashes_fold_distinct) simp
  show "set (map fst (secretDataHashes s xs)) = set (map fst xs)"
    by (simp add: secretDataHashes_def hashes_fold_keys)
  show "map_of (secretDataHashes s xs) k = map_option s (map_of xs k)"
    by (simp add: secretDataHashes_def hashes_fold_map_of[OF assms] split: option.splits)
qed

lemma configmapDataHashes_filter:
  "fold (\<lambda>kv dataHashes. if fst kv \<noteq> ''index_settings''
                          then AList.update (fst kv) (s (snd kv)) dataHashes else dataHashes) xs acc
     = fold (\<lambda>kv dataHashes. AList.update (fst kv) (s (snd kv)) dataHashes) (filter nonVolatile xs) acc"
  by (induction xs arbitrary: acc) (simp_all add: nonVolatile_def)

lemma configmapDataDigest_filter:
  "configmapDataDigest s xs = secretDataDigest s (filter nonVolatile xs)"
  by (simp add: configmapDataDigest_def secretDataDigest_def configmapDataHashes_def
      secretDataHashes_def configmapDataHashes_filter)

lemma appendHashes_fold:
  "fold (\<lambda>key hash. hash @ g key) ks acc = acc @ concat (map g ks)"
  by (induction ks arbitrary: acc) simp_all

lemma appendHashes_concat: "appendHashes dataHashes ks = concat (map (hashAt dataHashes) ks)"
  by (simp add: appendHashes_def appendHashes_fold)

lemma sort_same_set:
  fixes ks :: "string list"
  assumes "distinct ks" and "distinct ks'" and "set ks = set ks'"
  shows "sort ks = sort ks'"
  by (rule sorted_distinct_set_unique) (simp_all add: assms)

text \<open>The digest of a bundle with distinct keys, from the map it stands for.\<close>

lemma secretDataDigest_eq:
  assumes d: "distinct (map fst xs)"
  shows "secretDataDigest s xs = concat (map (\<lambda>k. s (the (map_of xs k))) (sort (map fst xs)))"
proof -
  note p = secretDataHashes_props[OF d, of s]
  have keys: "sort (map fst (secretDataHashes s xs)) = sort (map fst xs)"
    using p(1) d p(2) by (rule sort_same_set)
  have "map (hashAt (secretDataHashes s xs)) (sort (map fst xs))
          = map (\<lambda>k. s (the (map_of xs k))) (sort (map fst xs))"
  proof (rule map_cong[OF refl])
    fix k assume "k \<in> set (sort (map fst xs))"
    then have "k \<in> fst ` set xs" by simp
    then obtain v where "map_of xs k = Some v"
      by (metis map_of_eq_None_iff not_Some_eq)
    then show "hashAt (secretDataHashes s xs) k = s (the (map_of xs k))"
      by (simp add: hashAt_def p(3))
  qed
  then have blocks: "concat (map (hashAt (secretDataHashes s xs)) (sort (map fst xs)))
          = concat (map (\<lambda>k. s (the (map_of xs k))) (sort (map fst xs)))"
    by (rule arg_cong)
  have "secretDataDigest s xs = concat (map (hashAt (secretDataHashes s xs)) (sort (map fst xs)))"
    by (simp add: secretDataDigest_def sortDataHashKeys_def appendHashes_concat keys)
  then show ?thesis using blocks by (rule trans)
qed

lemma keys_of_map:
  fixes xs ys :: gomap
  assumes "distinct (map fst xs)" and "distinct (map fst ys)" and "dom (map_of ys) = dom (map_of xs)"
  shows "sort (map fst ys) = sort (map fst xs)"
proof (rule sort_same_set)
  show "distinct (map fst ys)" and "distinct (map fst xs)"
    using assms by simp_all
  show "set (map fst ys) = set (map fst xs)"
    using assms(3) by (simp add: dom_map_of_conv_image_fst)
qed

lemma secretDataDigest_same_map:
  assumes "distinct (map fst xs)" and "distinct (map fst ys)" and "map_of ys = map_of xs"
  shows "secretDataDigest s ys = secretDataDigest s xs"
  using assms keys_of_map[OF assms(1,2)] by (simp add: secretDataDigest_eq)

lemma length_digest:
  assumes "\<forall>x. length (s x) = 32"
  shows "length (concat (map (\<lambda>k. s (the (m k))) ks)) = 32 * length ks"
  using assms by (induction ks) simp_all

lemma secretDataDigest_value_changed:
  assumes len: "\<forall>x. length (s x) = 32"
    and dx: "distinct (map fst xs)" and dy: "distinct (map fst ys)"
    and old: "map_of xs k = Some v" and new: "map_of ys = (map_of xs)(k \<mapsto> v')"
    and differ: "s v' \<noteq> s v"
  shows "secretDataDigest s ys \<noteq> secretDataDigest s xs"
proof
  assume same: "secretDataDigest s ys = secretDataDigest s xs"
  let ?K = "sort (map fst xs)"
  have "dom (map_of ys) = dom (map_of xs)"
    using old new by auto
  then have keys: "sort (map fst ys) = ?K"
    by (rule keys_of_map[OF dx dy])
  from same have "concat (map (\<lambda>j. s (the (map_of ys j))) ?K) = concat (map (\<lambda>j. s (the (map_of xs j))) ?K)"
    by (simp add: secretDataDigest_eq dx dy keys)
  then have "map (\<lambda>j. s (the (map_of ys j))) ?K = map (\<lambda>j. s (the (map_of xs j))) ?K"
  proof (rule concat_injective)
    show "length (map (\<lambda>j. s (the (map_of ys j))) ?K) = length (map (\<lambda>j. s (the (map_of xs j))) ?K)"
      by simp
    show "\<forall>(x, y)\<in>set (zip (map (\<lambda>j. s (the (map_of ys j))) ?K) (map (\<lambda>j. s (the (map_of xs j))) ?K)).
            length x = length y"
      using len by (auto simp: zip_map_map)
  qed
  moreover have "k \<in> set ?K"
    using map_of_SomeD[OF old] by force
  ultimately have "s (the (map_of ys k)) = s (the (map_of xs k))"
    by auto
  with old new differ show False by simp
qed

lemma secretDataDigest_key_added:
  assumes len: "\<forall>x. length (s x) = 32"
    and dx: "distinct (map fst xs)" and dy: "distinct (map fst ys)"
    and old: "map_of xs k = None" and new: "map_of ys = (map_of xs)(k \<mapsto> v)"
  shows "secretDataDigest s ys \<noteq> secretDataDigest s xs"
proof -
  have "fst ` set ys = insert k (fst ` set xs)"
    using new by (metis dom_fun_upd dom_map_of_conv_image_fst option.distinct(1))
  moreover have "k \<notin> fst ` set xs"
    using old by (simp add: map_of_eq_None_iff)
  ultimately have "card (fst ` set ys) = Suc (card (fst ` set xs))"
    by simp
  moreover have "card (fst ` set xs) = length xs" "card (fst ` set ys) = length ys"
    using distinct_card[OF dx] distinct_card[OF dy] by simp_all
  ultimately have "length ys = Suc (length xs)" by simp
  then have "length (secretDataDigest s ys) \<noteq> length (secretDataDigest s xs)"
    by (simp add: secretDataDigest_eq dx dy length_digest[OF len])
  then show ?thesis by auto
qed


lemma map_of_nonVolatile:
  "map_of (filter nonVolatile xs) j = (if j = ''index_settings'' then None else map_of xs j)"
  by (induction xs) (auto simp: nonVolatile_def)

lemma configmapDataDigest_same_map:
  assumes dx: "distinct (map fst xs)" and dy: "distinct (map fst ys)"
    and same: "\<forall>j. j \<noteq> ''index_settings'' \<longrightarrow> map_of ys j = map_of xs j"
  shows "configmapDataDigest s ys = configmapDataDigest s xs"
proof -
  have "map_of (filter nonVolatile ys) = map_of (filter nonVolatile xs)"
    using same by (auto simp: map_of_nonVolatile fun_eq_iff)
  then show ?thesis
    unfolding configmapDataDigest_filter
    by (intro secretDataDigest_same_map distinct_map_filter dx dy)
qed

text \<open>
  The digests of two bundles with distinct keys, under a hash function with results of
  32 bytes: the order of the entries does not matter, a value with another hash or one
  more key changes both digests unless the key is \<open>index_settings\<close>, and the entry
  \<open>index_settings\<close> does not enter the configuration digest.
\<close>

lemma digest_determinism:
  assumes len: "\<forall>x. length (sum256 x) = 32"
    and dx: "distinct (map fst xs)" and dy: "distinct (map fst ys)"
  shows "set ys = set xs \<Longrightarrow> secretDataDigest sum256 ys = secretDataDigest sum256 xs"
    and "set ys = set xs \<Longrightarrow> configmapDataDigest sum256 ys = configmapDataDigest sum256 xs"
    and "map_of xs k = Some v \<Longrightarrow> map_of ys = (map_of xs)(k \<mapsto> v') \<Longrightarrow> sum256 v' \<noteq> sum256 v
           \<Longrightarrow> secretDataDigest sum256 ys \<noteq> secretDataDigest sum256 xs"
    and "map_of xs k = Some v \<Longrightarrow> map_of ys = (map_of xs)(k \<mapsto> v') \<Longrightarrow> sum256 v' \<noteq> sum256 v
           \<Longrightarrow> k \<noteq> ''index_settings''
           \<Longrightarrow> configmapDataDigest sum256 ys \<noteq> configmapDataDigest sum256 xs"
    and "map_of xs k = None \<Longrightarrow> map_of ys = (map_of xs)(k \<mapsto> v)
           \<Longrightarrow> secretDataDigest sum256 ys \<noteq> secretDataDigest sum256 xs"
    and "map_of xs k = None \<Longrightarrow> map_of ys = (map_of xs)(k \<mapsto> v) \<Longrightarrow> k \<noteq> ''index_settings''
           \<Longrightarrow> configmapDataDigest sum256 ys \<noteq> configmapDataDigest sum256 xs"
    and "\<forall>j. j \<noteq> ''index_settings'' \<longrightarrow> map_of ys j = map_of xs j
           \<Longrightarrow> configmapDataDigest sum256 ys = configmapDataDigest sum256 xs"
proof -
  note fx = distinct_map_filter[OF dx, of nonVolatile] and fy = distinct_map_filter[OF dy, of nonVolatile]
  {
    assume "set ys = set xs"
    then have m: "map_of ys = map_of xs"
      using map_of_inject_set[OF dy dx] by simp
    then show "secretDataDigest sum256 ys = secretDataDigest sum256 xs"
      by (rule secretDataDigest_same_map[OF dx dy])
    from m show "configmapDataDigest sum256 ys = configmapDataDigest sum256 xs"
      by (intro configmapDataDigest_same_map dx dy) simp
  }
  {
    assume a: "map_of xs k = Some v" "map_of ys = (map_of xs)(k \<mapsto> v')" "sum256 v' \<noteq> sum256 v"
    then show "secretDataDigest sum256 ys \<noteq> secretDataDigest sum256 xs"
      by (intro secretDataDigest_value_changed[OF len dx dy, of k v v']) simp_all
    assume nv: "k \<noteq> ''index_settings''"
    have "map_of (filter nonVolatile xs) k = Some v"
      and "map_of (filter nonVolatile ys) = (map_of (filter nonVolatile xs))(k \<mapsto> v')"
      using a nv by (auto simp: map_of_nonVolatile fun_eq_iff)
    from secretDataDigest_value_changed[OF len fx fy this] a
    show "configmapDataDigest sum256 ys \<noteq> configmapDataDigest sum256 xs"
      by (simp add: configmapDataDigest_filter)
  }
  {
    assume a: "map_of xs k = None" "map_of ys = (map_of xs)(k \<mapsto> v)"
    then show "secretDataDigest sum256 ys \<noteq> secretDataDigest sum256 xs"
      by (intro secretDataDigest_key_added[OF len dx dy, of k v]) simp_all
    assume nv: "k \<noteq> ''index_settings''"
    have "map_of (filter nonVolatile xs) k = None"
      and "map_of (filter nonVolatile ys) = (map_of (filter nonVolatile xs))(k \<mapsto> v)"
      using a nv by (auto simp: map_of_nonVolatile fun_eq_iff)
    from secretDataDigest_key_added[OF len fx fy this]
    show "configmapDataDigest sum256 ys \<noteq> configmapDataDigest sum256 xs"
      by (simp add: configmapDataDigest_filter)
  }
  {
    assume "\<forall>j. j \<noteq> ''index_settings'' \<longrightarrow> map_of ys j = map_of xs j"
    then show "configmapDataDigest sum256 ys = configmapDataDigest sum256 xs"
      by (rule configmapDataDigest_same_map[OF dx dy])
  }
qed

text \<open>What the two functions return, by the fault they meet and the bundle stored.\<close>

lemma getSecretDataHash_eq:
  "getSecretDataHash sum256 w n ns =
     (skipFault w,
      case headFault w of
        Some err \<Rightarrow> []
      | None \<Rightarrow> (case secrets w (ns, n) of None \<Rightarrow> [] | Some sec \<Rightarrow> secretDataDigest sum256 sec))"
  by (simp add: getSecretDataHash_def secret_Get_def c_GetSecret_def nextFault_eq
      split: option.splits)

lemma getConfigmapDataHash_eq:
  "getConfigmapDataHash sum256 w n ns =
     (skipFault w,
      case headFault w of
        Some err \<Rightarrow> NilPointerPanic
      | None \<Rightarrow> (case configmaps w (ns, n) of
                   None \<Rightarrow> NilPointerPanic
                 | Some cm \<Rightarrow> Returned (configmapDataDigest sum256 cm)))"
  by (simp add: getConfigmapDataHash_def configmap_Get_def c_GetConfigMap_def nextFault_eq
      split: option.splits)

section \<open>Callers of \<open>deployment.Update\<close> whose compare function closes the gate\<close>

text \<open>\<open>setReplicaCount\<close> never sends a request, whatever the cluster holds.\<close>

lemma setReplicaCount_sends_nothing:
  "requests (fst (setReplicaCount w node count)) = requests w
   \<and> deployments (fst (setReplicaCount w node count)) = deployments w"
  by (simp add: setReplicaCount_def deployment_Update_eq split: option.splits)

text \<open>\<open>executeUpdate\<close> sends nothing when the stored template differs from the desired one.\<close>

lemma executeUpdate_skips_changed:
  assumes "headFault w = None"
    and "lookupDeployment w (dplKey (self node)) = Some current"
    and "ArePodTemplateSpecDifferent (comparing D) (Template (dplSpec current)) (Template (dplSpec (self node)))"
  shows "executeUpdate D w node = (skipFault w, None)"
  using assms by (simp add: executeUpdate_def deployment_Update_eq templateCompare_def)

section \<open>Scaling\<close>

text \<open>
  Claim C1 says that \<open>scaleUp\<close> and \<open>scaleDown\<close> always write the new replica count to the
  backend. \<open>setReplicaCount\<close> passes a compare function that always answers true, and
  \<open>deployment.Update\<close> writes only when the compare function answers false. On a cluster
  that holds the workload with three replicas, \<open>scaleDown\<close> returns no error, sends no
  request and leaves the stored count at three, while the node's own copy says zero;
  \<open>scaleUp\<close> on a workload stored with zero replicas likewise sends nothing.
\<close>

theorem scale_sends_no_request:
  "snd (snd (scaleDown (liveWorld True exampleTemplate [goodPod]) exampleNode)) = None
   \<and> requests (fst (scaleDown (liveWorld True exampleTemplate [goodPod]) exampleNode)) = []
   \<and> storedReplicas (fst (scaleDown (liveWorld True exampleTemplate [goodPod]) exampleNode))
        (''logging'', ''es-cdm-1'') = Some (Some 3)
   \<and> Replicas (dplSpec (self (fst (snd (scaleDown (liveWorld True exampleTemplate [goodPod]) exampleNode)))))
        = Some 0
   \<and> snd (snd (scaleUp scaledDownWorld exampleNode)) = None
   \<and> requests (fst (scaleUp scaledDownWorld exampleNode)) = []
   \<and> storedReplicas (fst (scaleUp scaledDownWorld exampleNode)) (''logging'', ''es-cdm-1'') = Some (Some 0)
   \<and> replicas exampleNode = 3"
  by code_simp

section \<open>The predicate of the rollout poll\<close>

text \<open>
  Claim C2, as the code has it. The predicate that \<open>waitForNodeRollout\<close> polls succeeds
  if and only if the listing of the pods succeeds and at least one of the listed pods of
  the group matches the desired template under the pod-spec-difference rule with
  non-strict tolerations. So \<open>waitForNodeRollout\<close> returns success only once at least one
  live pod of the group matches the desired template.
\<close>

theorem rollout_poll_some_pod:
  "(snd (podSpecMatches C w node) \<longleftrightarrow>
      fst (nextFault w) = None \<and> list_ex (podMatches C node) (livePods w node))
   \<and> (waitForNodeRollout C w node = (w', None) \<longrightarrow> list_ex (podMatches C node) (livePods w' node))"
  by (auto simp: podSpecMatches_def checkPodSpecMatches_eq nextFault_eq waitForNodeRollout_def
      wait_Poll_def dest: pollLoop_rollout)

text \<open>
  The claim as stated asks that every listed pod matches. With a matching and a
  non-matching pod listed the predicate succeeds; with no pod listed it fails.
\<close>

theorem rollout_poll_not_every_pod:
  "snd (podSpecMatches exampleComparators (liveWorld False exampleTemplate [goodPod, badPod]) exampleNode)
   \<and> livePods (liveWorld False exampleTemplate [goodPod, badPod]) exampleNode = [goodPod, badPod]
   \<and> ArePodSpecDifferent exampleComparators (podSpec badPod) (desiredPodSpec exampleNode) False
   \<and> \<not> snd (podSpecMatches exampleComparators (liveWorld False exampleTemplate []) exampleNode)
   \<and> livePods (liveWorld False exampleTemplate []) exampleNode = []"
  by code_simp

text \<open>A run of the wait on a cluster whose second pod matches.\<close>

theorem rollout_poll_some_pod_witness:
  "snd (waitForNodeRollout exampleComparators (liveWorld False exampleTemplate [badPod, goodPod]) exampleNode) = None
   \<and> list_ex (podMatches exampleComparators exampleNode)
        (livePods (fst (waitForNodeRollout exampleComparators
                          (liveWorld False exampleTemplate [badPod, goodPod]) exampleNode)) exampleNode)"
proof -
  let ?r = "waitForNodeRollout exampleComparators (liveWorld False exampleTemplate [badPod, goodPod]) exampleNode"
  have h: "snd ?r = None"
    by code_simp
  then have "?r = (fst ?r, None)"
    by (simp add: prod_eq_iff)
  with rollout_poll_some_pod[of exampleComparators "liveWorld False exampleTemplate [badPod, goodPod]"
      exampleNode "fst ?r"] h
  show ?thesis by simp
qed

section \<open>Pause discipline\<close>

text \<open>
  Claim C3, as the code has it. When \<open>progressNodeChanges\<close> returns success after it found
  drift (\<open>isChanged\<close> was true, or no pod matched), the paused flag of the group is true
  immediately afterwards, in the node's own copy and in the backend. When it returns
  success because it found no drift, it has sent nothing and changed nothing: the paused
  flag is what it was before the call.
\<close>

theorem progress_success_paused:
  assumes "progressNodeChanges D w node = (w', node', Returned None)"
  shows "if snd (isChanged (comparing D) w node)
            \<or> \<not> snd (podSpecMatches (comparing D) (fst (isChanged (comparing D) w node)) node)
         then Paused (dplSpec (self node')) \<and> storedPaused w' (dplKey (self node)) = Some True
         else node' = node \<and> requests w' = requests w \<and> deployments w' = deployments w"
  using progress_success_elim[OF assms]
proof
  assume "\<not> snd (isChanged (comparing D) w node)
          \<and> snd (podSpecMatches (comparing D) (fst (isChanged (comparing D) w node)) node)
          \<and> w' = skipFault (skipFault w) \<and> node' = node"
  then show ?thesis by simp
next
  assume "(snd (isChanged (comparing D) w node)
            \<or> \<not> snd (podSpecMatches (comparing D) (fst (isChanged (comparing D) w node)) node))
           \<and> (\<exists>w2 w3 w4 node4 w5 w6 node6.
                 executeUpdate D w2 node = (w3, None)
                 \<and> unpause w3 node = (w4, node4, None)
                 \<and> waitForNodeRollout (comparing D) w4 node4 = (w5, None)
                 \<and> pause w5 node4 = (w6, node6, None)
                 \<and> refreshHashes D w6 node6 = (w', Returned node'))"
  then obtain w3 w4 node4 w5 w6 node6
    where drift: "snd (isChanged (comparing D) w node)
            \<or> \<not> snd (podSpecMatches (comparing D) (fst (isChanged (comparing D) w node)) node)"
    and unp: "unpause w3 node = (w4, node4, None)"
    and pau: "pause w5 node4 = (w6, node6, None)"
    and ref: "refreshHashes D w6 node6 = (w', Returned node')"
    by blast
  from setPaused_cases(3)[OF unp[unfolded unpause_def]]
  have n4: "node4 = node\<lparr>self := setPausedOf False (self node)\<rparr>" by simp
  from setPaused_cases(3)[OF pau[unfolded pause_def]]
  obtain cur :: Deployment where n6: "node6 = node4\<lparr>self := setPausedOf True (self node4)\<rparr>"
    and st: "storedSpec w6 (dplKey (self node4)) = Some ((dplSpec cur)\<lparr>Paused := True\<rparr>)"
    by auto
  from n4 have key: "dplKey (self node4) = dplKey (self node)" by simp
  from refreshHashes_cases[OF ref] have q: "quiet w6 w'" and s: "self node' = self node6"
    by simp_all
  from quiet_storedSpec[OF q] st key
  have "storedSpec w' (dplKey (self node)) = Some ((dplSpec cur)\<lparr>Paused := True\<rparr>)" by simp
  then have "storedPaused w' (dplKey (self node)) = Some True"
    by (simp add: storedPaused_def)
  moreover have "Paused (dplSpec (self node'))"
    using s n6 by (simp add: setPausedOf_def)
  ultimately show ?thesis using drift by simp
qed

text \<open>
  The claim as stated promises a paused group after every successful call. On a cluster
  whose workload is unpaused, has the desired template and a matching pod, the call
  succeeds at its first test and the group stays unpaused.
\<close>

theorem progress_noop_leaves_unpaused:
  "snd (snd settledRun) = Returned None
   \<and> \<not> Paused (dplSpec (self (fst (snd settledRun))))
   \<and> storedPaused (fst settledRun) (''logging'', ''es-cdm-1'') = Some False
   \<and> requests (fst settledRun) = []"
  by code_simp

text \<open>A successful rollout: the first of the two runs on the cluster with the dropped toleration.\<close>

theorem progress_success_paused_witness:
  "snd (snd firstRun) = Returned None
   \<and> snd (isChanged (comparing exampleCollaborators) driftWorld exampleNode)
   \<and> Paused (dplSpec (self (fst (snd firstRun))))
   \<and> storedPaused (fst firstRun) (dplKey (self exampleNode)) = Some True"
proof -
  have r: "snd (snd firstRun) = Returned None"
    by code_simp
  have c: "snd (isChanged (comparing exampleCollaborators) driftWorld exampleNode)"
    by code_simp
  have h: "progressNodeChanges exampleCollaborators driftWorld exampleNode
             = (fst firstRun, fst (snd firstRun), Returned None)"
    using r by (simp add: firstRun_def prod_eq_iff)
  from progress_success_paused[OF h] c r show ?thesis
    by simp
qed

section \<open>A rollout that times out\<close>

text \<open>
  Claim C4. When \<open>progressNodeChanges\<close> has found drift, has executed the update and has
  unpaused the group, and \<open>waitForNodeRollout\<close> then fails, the failure is the timeout of
  the poll, \<open>progressNodeChanges\<close> returns the error "timed out waiting for node to
  rollout" with the world and the node as the wait left them, no request is sent after
  the unpause (so no pause), and the paused flag is false in the node's own copy and in
  the backend.
\<close>

theorem progress_rollout_timeout:
  assumes "isChanged (comparing D) w node = (w1, changed)"
    and "(if \<not> changed then podSpecMatches (comparing D) w1 node else (w1, False)) = (w2, False)"
    and "executeUpdate D w2 node = (w3, None)"
    and "unpause w3 node = (w4, node4, None)"
    and "waitForNodeRollout (comparing D) w4 node4 = (w5, Some err)"
  shows "progressNodeChanges D w node
           = (w5, node4, Returned (Some (KvNew ''timed out waiting for node to rollout'')))
       \<and> err = ErrWaitTimeout
       \<and> requests w5 = requests w4
       \<and> \<not> Paused (dplSpec (self node4))
       \<and> storedPaused w5 (dplKey (self node)) = Some False"
proof -
  have run: "progressNodeChanges D w node
           = (w5, node4, Returned (Some (KvNew ''timed out waiting for node to rollout'')))"
    using assms by (simp add: progressNodeChanges_def)
  from waitForNodeRollout_cases[OF assms(5)] have q: "quiet w4 w5" and e: "err = ErrWaitTimeout"
    by simp_all
  from setPaused_cases(3)[OF assms(4)[unfolded unpause_def]]
  obtain cur :: Deployment where n4: "node4 = node\<lparr>self := setPausedOf False (self node)\<rparr>"
    and st: "storedSpec w4 (dplKey (self node)) = Some ((dplSpec cur)\<lparr>Paused := False\<rparr>)"
    by auto
  from quiet_storedSpec[OF q] st
  have "storedSpec w5 (dplKey (self node)) = Some ((dplSpec cur)\<lparr>Paused := False\<rparr>)" by simp
  then have "storedPaused w5 (dplKey (self node)) = Some False"
    by (simp add: storedPaused_def)
  moreover have "\<not> Paused (dplSpec (self node4))"
    using n4 by (simp add: setPausedOf_def)
  moreover have "requests w5 = requests w4"
    using q by (simp add: quiet_def)
  ultimately show ?thesis using run e by simp
qed

text \<open>The theorem on the cluster whose pod never takes the desired image: thirty-one polls fail.\<close>

theorem progress_rollout_timeout_witness:
  "snd staleChecked
   \<and> snd staleUpdated = None
   \<and> snd (snd staleUnpaused) = None
   \<and> snd staleWaited = Some ErrWaitTimeout
   \<and> snd (snd (progressNodeChanges exampleCollaborators staleWorld exampleNode))
        = Returned (Some (KvNew ''timed out waiting for node to rollout''))
   \<and> \<not> Paused (dplSpec (self (fst (snd (progressNodeChanges exampleCollaborators staleWorld exampleNode)))))
   \<and> storedPaused (fst (progressNodeChanges exampleCollaborators staleWorld exampleNode))
        (dplKey (self exampleNode)) = Some False"
proof -
  have c: "snd staleChecked" by code_simp
  have u: "snd staleUpdated = None" by code_simp
  have p: "snd (snd staleUnpaused) = None" by code_simp
  have t: "snd staleWaited = Some ErrWaitTimeout" by code_simp
  have h1: "isChanged (comparing exampleCollaborators) staleWorld exampleNode = (fst staleChecked, True)"
    using c by (simp add: staleChecked_def exampleCollaborators_def prod_eq_iff)
  have h2: "(if \<not> True then podSpecMatches (comparing exampleCollaborators) (fst staleChecked) exampleNode
             else (fst staleChecked, False)) = (fst staleChecked, False)"
    by simp
  have h3: "executeUpdate exampleCollaborators (fst staleChecked) exampleNode = (fst staleUpdated, None)"
    using u by (simp add: staleUpdated_def prod_eq_iff)
  have h4: "unpause (fst staleUpdated) exampleNode = (fst staleUnpaused, fst (snd staleUnpaused), None)"
    using p by (simp add: staleUnpaused_def prod_eq_iff)
  have h5: "waitForNodeRollout (comparing exampleCollaborators) (fst staleUnpaused) (fst (snd staleUnpaused))
              = (fst staleWaited, Some ErrWaitTimeout)"
    using t by (simp add: staleWaited_def exampleCollaborators_def prod_eq_iff)
  from progress_rollout_timeout[OF h1 h2 h3 h4 h5] c u p t show ?thesis
    by simp
qed

section \<open>Two runs in a row\<close>

text \<open>
  Claim C5 says that a second \<open>progressNodeChanges\<close> after a successful first one, with no
  change from outside in between, sends nothing. \<open>executeUpdate\<close> passes
  \<open>ArePodTemplateSpecDifferent\<close> as the compare function, and \<open>deployment.Update\<close> writes
  only when the compare function answers false: a template that differs is never
  written. On the cluster whose stored template carries a toleration that the desired
  template has dropped, the first run succeeds with two requests (unpause, pause), the
  stored template is still the old one, and the second run sends two more.
\<close>

theorem second_run_sends_requests:
  "snd (snd firstRun) = Returned None
   \<and> length (requests (fst firstRun)) = 2
   \<and> storedTemplate (fst firstRun) (''logging'', ''es-cdm-1'') = Some toleratingTemplate
   \<and> snd (snd secondRun) = Returned None
   \<and> length (requests (fst secondRun)) = 4
   \<and> storedTemplate (fst secondRun) (''logging'', ''es-cdm-1'') = Some toleratingTemplate"
  by code_simp

section \<open>Creating the workload\<close>




section \<open>\<open>isChanged\<close>\<close>

text \<open>
  Claim C7, as the code has it. \<open>isChanged\<close> returns true if and only if the fetch of the
  group's workload reports not-found (the workload is absent from the backend), or the
  fetch succeeds and the live template differs from the desired template under the
  pod-spec-difference rule with strict tolerations: another container count, other node
  selectors, other tolerations, a live container whose name is not among the desired
  containers, or a live container that differs from a desired container of its name in
  volume mounts, image, environment, arguments, ports or resources. When the fetch fails
  in any other way, \<open>isChanged\<close> returns false, whatever the backend holds.
\<close>

theorem isChanged_iff:
  "snd (isChanged C w node) \<longleftrightarrow>
     (case fst (nextFault w) of
        Some err \<Rightarrow> IsNotFound (Root err)
      | None \<Rightarrow>
          (case lookupDeployment w (Namespace (dplMeta (self node)), name node) of
             None \<Rightarrow> True
           | Some current \<Rightarrow>
               podSpecDifferenceRule C (tmplSpec (Template (dplSpec current)))
                 (tmplSpec (Template (dplSpec (self node)))) True))"
  by (simp add: isChanged_def deployment_Get_def c_GetDeployment_def nextFault_eq
      ArePodTemplateSpecDifferent_def ArePodSpecDifferent_rule IsNotFound_def
      split: option.splits)

text \<open>
  The claim as stated makes \<open>isChanged\<close> true whenever the live template differs from the
  desired one. On a cluster that stores a template with another image and whose API
  server answers the fetch with an error other than not-found, the templates differ
  under the rule and \<open>isChanged\<close> returns false.
\<close>

theorem isChanged_fetch_failure:
  "lookupDeployment unreachableWorld (Namespace (dplMeta (self exampleNode)), name exampleNode)
     = Some (storedDeployment True otherImageTemplate)
   \<and> podSpecDifferenceRule exampleComparators
        (tmplSpec (Template (dplSpec (storedDeployment True otherImageTemplate))))
        (tmplSpec (Template (dplSpec (self exampleNode)))) True
   \<and> \<not> snd (isChanged exampleComparators unreachableWorld exampleNode)"
  by code_simp

text \<open>
  The theorem at work: a stored template with another image is a change, an equal one is
  none, a missing workload is a change, and a fetch that fails with a server error is
  none.
\<close>

theorem isChanged_iff_witness:
  "snd (isChanged exampleComparators (liveWorld True otherImageTemplate []) exampleNode)
   \<and> \<not> snd (isChanged exampleComparators (liveWorld True exampleTemplate []) exampleNode)
   \<and> snd (isChanged exampleComparators bundleWorld exampleNode)
   \<and> \<not> snd (isChanged exampleComparators unreachableWorld exampleNode)"
  by (subst isChanged_iff, subst isChanged_iff, subst isChanged_iff, subst isChanged_iff) code_simp

section \<open>A bundle that cannot be fetched\<close>

text \<open>
  Claim C8 says that both fingerprint functions return the empty digest when the bundle
  cannot be fetched. On a cluster without bundles \<open>getSecretDataHash\<close> does so, and
  \<open>getConfigmapDataHash\<close> dereferences the nil pointer that \<open>configmap.Get\<close> returned.
\<close>

theorem configmap_hash_panics:
  "snd (getConfigmapDataHash exampleSum256 emptyWorld ''es'' ''logging'') = NilPointerPanic
   \<and> snd (getSecretDataHash exampleSum256 emptyWorld ''es'' ''logging'') = []"
  by code_simp

section \<open>Fingerprint determinism\<close>

text \<open>
  Claim C9. Take two clusters that answer the fetch, holding the credential bundles \<open>sx\<close>
  and \<open>sy\<close> and the configuration bundles \<open>cx\<close> and \<open>cy\<close> under the same names. A bundle
  is a Go map: its keys are distinct, and the order of the list is the order in which
  the loop happens to visit them. The hash function has results of 32 bytes. Then
  \<open>getSecretDataHash\<close> and \<open>getConfigmapDataHash\<close> return the digest of the bundle stored,
  and the fingerprints they return compare as follows. If the two bundles hold the same
  entries, in whatever order, the fingerprints agree. If the second bundle is the first
  with the value of one key changed to a value with another hash, the credential
  fingerprints differ, and so do the configuration fingerprints unless the key is
  \<open>index_settings\<close>. If the second bundle is the first with one more key (read the other
  way: one key less), the same holds. If the configuration bundles agree on every key
  but \<open>index_settings\<close>, the configuration fingerprints agree.
\<close>

theorem fingerprint_determinism:
  assumes len: "\<forall>x. length (sum256 x) = 32"
    and answers: "headFault w = None" "headFault w' = None"
    and sx: "secrets w (ns, sn) = Some sx" and sy: "secrets w' (ns, sn) = Some sy"
    and cx: "configmaps w (ns, cn) = Some cx" and cy: "configmaps w' (ns, cn) = Some cy"
    and dsx: "distinct (map fst sx)" and dsy: "distinct (map fst sy)"
    and dcx: "distinct (map fst cx)" and dcy: "distinct (map fst cy)"
  shows "snd (getSecretDataHash sum256 w sn ns) = secretDataDigest sum256 sx
       \<and> snd (getConfigmapDataHash sum256 w cn ns) = Returned (configmapDataDigest sum256 cx)
       \<and> (set sy = set sx \<longrightarrow>
            snd (getSecretDataHash sum256 w' sn ns) = snd (getSecretDataHash sum256 w sn ns))
       \<and> (set cy = set cx \<longrightarrow>
            snd (getConfigmapDataHash sum256 w' cn ns) = snd (getConfigmapDataHash sum256 w cn ns))
       \<and> (map_of sx k = Some v \<and> map_of sy = (map_of sx)(k \<mapsto> v') \<and> sum256 v' \<noteq> sum256 v \<longrightarrow>
            snd (getSecretDataHash sum256 w' sn ns) \<noteq> snd (getSecretDataHash sum256 w sn ns))
       \<and> (map_of cx k = Some v \<and> map_of cy = (map_of cx)(k \<mapsto> v') \<and> sum256 v' \<noteq> sum256 v
            \<and> k \<noteq> ''index_settings'' \<longrightarrow>
            snd (getConfigmapDataHash sum256 w' cn ns) \<noteq> snd (getConfigmapDataHash sum256 w cn ns))
       \<and> (map_of sx k = None \<and> map_of sy = (map_of sx)(k \<mapsto> v) \<longrightarrow>
            snd (getSecretDataHash sum256 w' sn ns) \<noteq> snd (getSecretDataHash sum256 w sn ns))
       \<and> (map_of cx k = None \<and> map_of cy = (map_of cx)(k \<mapsto> v) \<and> k \<noteq> ''index_settings'' \<longrightarrow>
            snd (getConfigmapDataHash sum256 w' cn ns) \<noteq> snd (getConfigmapDataHash sum256 w cn ns))
       \<and> ((\<forall>j. j \<noteq> ''index_settings'' \<longrightarrow> map_of cy j = map_of cx j) \<longrightarrow>
            snd (getConfigmapDataHash sum256 w' cn ns) = snd (getConfigmapDataHash sum256 w cn ns))"
proof -
  have s: "snd (getSecretDataHash sum256 w sn ns) = secretDataDigest sum256 sx"
    and s': "snd (getSecretDataHash sum256 w' sn ns) = secretDataDigest sum256 sy"
    using answers sx sy by (simp_all add: getSecretDataHash_eq)
  have c: "snd (getConfigmapDataHash sum256 w cn ns) = Returned (configmapDataDigest sum256 cx)"
    and c': "snd (getConfigmapDataHash sum256 w' cn ns) = Returned (configmapDataDigest sum256 cy)"
    using answers cx cy by (simp_all add: getConfigmapDataHash_eq)
  note secret = digest_determinism[OF len dsx dsy]
  note config = digest_determinism[OF len dcx dcy]
  show ?thesis
    unfolding s s' c c' exec.inject
  proof (intro conjI impI)
    show "secretDataDigest sum256 sx = secretDataDigest sum256 sx"
      and "configmapDataDigest sum256 cx = configmapDataDigest sum256 cx"
      by (rule refl)+
    show "secretDataDigest sum256 sy = secretDataDigest sum256 sx" if "set sy = set sx"
      using that by (rule secret(1))
    show "configmapDataDigest sum256 cy = configmapDataDigest sum256 cx" if "set cy = set cx"
      using that by (rule config(2))
    show "secretDataDigest sum256 sy \<noteq> secretDataDigest sum256 sx"
      if "map_of sx k = Some v \<and> map_of sy = (map_of sx)(k \<mapsto> v') \<and> sum256 v' \<noteq> sum256 v"
      using that secret(3)[of k v v'] by (elim conjE) 
    show "configmapDataDigest sum256 cy \<noteq> configmapDataDigest sum256 cx"
      if "map_of cx k = Some v \<and> map_of cy = (map_of cx)(k \<mapsto> v') \<and> sum256 v' \<noteq> sum256 v
          \<and> k \<noteq> ''index_settings''"
      using that config(4)[of k v v'] by (elim conjE)
    show "secretDataDigest sum256 sy \<noteq> secretDataDigest sum256 sx"
      if "map_of sx k = None \<and> map_of sy = (map_of sx)(k \<mapsto> v)"
      using that secret(5)[of k v] by (elim conjE)
    show "configmapDataDigest sum256 cy \<noteq> configmapDataDigest sum256 cx"
      if "map_of cx k = None \<and> map_of cy = (map_of cx)(k \<mapsto> v) \<and> k \<noteq> ''index_settings''"
      using that config(6)[of k v] by (elim conjE)
    show "configmapDataDigest sum256 cy = configmapDataDigest sum256 cx"
      if "\<forall>j. j \<noteq> ''index_settings'' \<longrightarrow> map_of cy j = map_of cx j"
      using that by (rule config(7))
  qed
qed

text \<open>
  Two clusters that store the same two bundles as credentials and as configuration. The
  bundles differ in the order of their keys and in their index settings: the
  configuration fingerprints are the same, the credential fingerprints are not.
\<close>

theorem fingerprint_determinism_witness:
  "(\<forall>x. length (exampleSum256 x) = 32)
   \<and> headFault (storing bundleA) = None \<and> headFault (storing bundleB) = None
   \<and> secrets (storing bundleA) (''logging'', ''es'') = Some bundleA
   \<and> secrets (storing bundleB) (''logging'', ''es'') = Some bundleB
   \<and> configmaps (storing bundleA) (''logging'', ''es'') = Some bundleA
   \<and> configmaps (storing bundleB) (''logging'', ''es'') = Some bundleB
   \<and> distinct (map fst bundleA) \<and> distinct (map fst bundleB)
   \<and> map_of bundleA ''index_settings'' = Some ''c''
   \<and> map_of bundleB = (map_of bundleA)(''index_settings'' \<mapsto> ''d'')
   \<and> exampleSum256 ''d'' \<noteq> exampleSum256 ''c''
   \<and> snd (getSecretDataHash exampleSum256 (storing bundleB) ''es'' ''logging'')
       \<noteq> snd (getSecretDataHash exampleSum256 (storing bundleA) ''es'' ''logging'')
   \<and> snd (getConfigmapDataHash exampleSum256 (storing bundleB) ''es'' ''logging'')
       = snd (getConfigmapDataHash exampleSum256 (storing bundleA) ''es'' ''logging'')
   \<and> snd (getConfigmapDataHash exampleSum256 (storing bundleA) ''es'' ''logging'')
       = Returned (configmapDataDigest exampleSum256 bundleA)"
proof -
  have len: "\<forall>x. length (exampleSum256 x) = 32"
    by (simp add: exampleSum256_def min_def)
  have ans: "headFault (storing bundleA) = None" "headFault (storing bundleB) = None"
    by (simp_all add: storing_def emptyWorld_def headFault_def)
  have st: "secrets (storing bundleA) (''logging'', ''es'') = Some bundleA"
    "secrets (storing bundleB) (''logging'', ''es'') = Some bundleB"
    "configmaps (storing bundleA) (''logging'', ''es'') = Some bundleA"
    "configmaps (storing bundleB) (''logging'', ''es'') = Some bundleB"
    by (simp_all add: storing_def)
  have da: "distinct (map fst bundleA)" and db: "distinct (map fst bundleB)"
    by (simp_all add: bundleA_def bundleB_def)
  have old: "map_of bundleA ''index_settings'' = Some ''c''"
    by (simp add: bundleA_def)
  have new: "map_of bundleB = (map_of bundleA)(''index_settings'' \<mapsto> ''d'')"
    by (auto simp: bundleA_def bundleB_def fun_eq_iff)
  have differ: "exampleSum256 ''d'' \<noteq> exampleSum256 ''c''"
    by (simp add: exampleSum256_def)
  have rest: "\<forall>j. j \<noteq> ''index_settings'' \<longrightarrow> map_of bundleB j = map_of bundleA j"
    by (simp add: new)
  note t = fingerprint_determinism[OF len ans st da db da db,
      where k = "''index_settings''" and v = "''c''" and v' = "''d''"]
  from t have link: "snd (getConfigmapDataHash exampleSum256 (storing bundleA) ''es'' ''logging'')
       = Returned (configmapDataDigest exampleSum256 bundleA)"
    by (elim conjE)
  from t old new differ
  have sec: "snd (getSecretDataHash exampleSum256 (storing bundleB) ''es'' ''logging'')
       \<noteq> snd (getSecretDataHash exampleSum256 (storing bundleA) ''es'' ''logging'')"
    by (elim conjE) (erule impE, intro conjI)
  from t rest
  have cfg: "snd (getConfigmapDataHash exampleSum256 (storing bundleB) ''es'' ''logging'')
       = snd (getConfigmapDataHash exampleSum256 (storing bundleA) ''es'' ''logging'')"
    by (elim conjE) (erule impE[where P = "\<forall>j. j \<noteq> ''index_settings'' \<longrightarrow> map_of bundleB j = map_of bundleA j"])
  show ?thesis
    by (intro conjI len ans st da db old new differ sec cfg link)
qed

section \<open>The compare gate of the two backends\<close>

text \<open>
  Claim C10. The two workload backends read the compare function with opposite polarity.
  When the object exists and neither of the first two reads fails, \<open>deployment.Update\<close>
  sends an update (of the mutated current object) if and only if the compare function
  returns false on the current and the desired object, and \<open>statefulset.Update\<close> does so
  if and only if it returns true. In either backend, a call that sends no request
  returns \<open>OperationResultNone\<close> and leaves the stored objects as they were.
\<close>

theorem compare_gate_polarity:
  assumes "list_all (\<lambda>f. f = None) (take 2 (faults w))"
    and "lookupDeployment w (dplKey dpl) = Some dCurrent"
    and "lookupStatefulSet w (stsKey sts) = Some sCurrent"
  shows "(if dCmp dCurrent dpl
          then requests (fst (deployment_Update w dpl dCmp dMutate)) = requests w
          else (\<exists>rs. requests (fst (deployment_Update w dpl dCmp dMutate)) =
                       requests w @ UpdateDeployment (dMutate dCurrent dpl) # rs))
       \<and> (if sCmp sCurrent sts
          then (\<exists>rs. requests (fst (statefulset_Update w sts sCmp sMutate)) =
                       requests w @ UpdateStatefulSet (sMutate sCurrent sts) # rs)
          else requests (fst (statefulset_Update w sts sCmp sMutate)) = requests w)
       \<and> (requests (fst (deployment_Update w dpl dCmp dMutate)) = requests w \<longrightarrow>
            fst (snd (deployment_Update w dpl dCmp dMutate)) = OperationResultNone
            \<and> deployments (fst (deployment_Update w dpl dCmp dMutate)) = deployments w)
       \<and> (requests (fst (statefulset_Update w sts sCmp sMutate)) = requests w \<longrightarrow>
            fst (snd (statefulset_Update w sts sCmp sMutate)) = OperationResultNone
            \<and> statefulsets (fst (statefulset_Update w sts sCmp sMutate)) = statefulsets w)"
  using deployment_Update_gate[OF assms(1,2)] statefulset_Update_gate[OF assms(1,3)]
    deployment_Update_frame statefulset_Update_frame
  by blast

text \<open>
  One cluster, one compare function that always answers false: the deployment backend
  sends the update, the statefulset backend sends nothing.
\<close>

theorem compare_gate_polarity_witness:
  "list_all (\<lambda>f. f = None) (take 2 (faults bothWorld))
   \<and> lookupDeployment bothWorld (dplKey (self exampleNode)) = Some (storedDeployment True exampleTemplate)
   \<and> lookupStatefulSet bothWorld (stsKey exampleStatefulSet) = Some exampleStatefulSet
   \<and> requests (fst (deployment_Update bothWorld (self exampleNode) (\<lambda>c d. False) (\<lambda>c d. c))) \<noteq> requests bothWorld
   \<and> requests (fst (statefulset_Update bothWorld exampleStatefulSet (\<lambda>c d. False) (\<lambda>c d. c))) = requests bothWorld
   \<and> fst (snd (statefulset_Update bothWorld exampleStatefulSet (\<lambda>c d. False) (\<lambda>c d. c))) = OperationResultNone"
proof -
  have h1: "list_all (\<lambda>f. f = None) (take 2 (faults bothWorld))"
    by code_simp
  have h2: "lookupDeployment bothWorld (dplKey (self exampleNode)) = Some (storedDeployment True exampleTemplate)"
    by code_simp
  have h3: "lookupStatefulSet bothWorld (stsKey exampleStatefulSet) = Some exampleStatefulSet"
    by code_simp
  show ?thesis
    using compare_gate_polarity[OF h1 h2 h3, of "\<lambda>c d. False" "\<lambda>c d. c" "\<lambda>c d. False" "\<lambda>c d. c"] h1 h2 h3
    by auto
qed

end
